theory Spec2Isabelle
  imports Main "HOL-Library.Sublist"
begin

text \<open>
  A model of the ParserSuite of IronBee (\<open>modules/parser_suite.cpp\<close>): the parsers of
  header blocks, request and response lines, URIs, authorities and paths, which cut an
  input into spans without copying it, and the statements of its specification, each
  proved of the model or refuted on an input.
\<close>

section \<open>Spans over an externally owned buffer\<close>

text \<open>
  The buffer is a list of bytes. A span (\<open>span_t\<close>, an iterator range of the source) is
  a pair of offsets into the buffer. A default-constructed span is the empty range; the
  model writes it as the empty range at offset 0.
\<close>

definition CR :: char where "CR = CHR 0x0D"
definition LF :: char where "LF = CHR 0x0A"
definition TAB :: char where "TAB = CHR 0x09"

record span_t =
  sbegin :: nat
  send :: nat

definition span_default :: span_t where
  "span_default = \<lparr>sbegin = 0, send = 0\<rparr>"

definition span_empty :: "span_t \<Rightarrow> bool" where
  "span_empty s \<longleftrightarrow> sbegin s = send s"

definition span_text :: "string \<Rightarrow> span_t \<Rightarrow> string" where
  "span_text buf s = take (send s - sbegin s) (drop (sbegin s) buf)"

definition span_of :: "string \<Rightarrow> span_t" where
  "span_of buf = \<lparr>sbegin = 0, send = length buf\<rparr>"

section \<open>The grammar combinators used by the source\<close>

text \<open>
  The source builds its grammars from the combinators of Boost.Spirit Qi. Each combinator
  is modelled by what its \<open>parse\<close> member does: it receives the buffer, the end of the
  input (\<open>lim\<close>, the \<open>last\<close> of Qi), the current position (\<open>first\<close>) and the state that
  the semantic actions of the grammar write to. It answers \<open>Match\<close> with the new position,
  its attribute and the state, or \<open>NoMatch\<close> with the state. A failed parser leaves the
  position where it was, but the semantic actions that ran before the failure are not
  undone: this is why \<open>NoMatch\<close> carries a state.

  \<open>Fault\<close> stands for the two ways in which the source does not return at all: a semantic
  action with undefined behaviour (\<open>back()\<close> of an empty list), and a repetition whose
  subject matches without consuming input, which Qi repeats forever.
\<close>

datatype fault = BackOfEmptyList | NoProgress

datatype ('a, 'st) outcome = Match nat 'a 'st | NoMatch 'st | Fault fault

type_synonym ('a, 'st) parser = "string \<Rightarrow> nat \<Rightarrow> nat \<Rightarrow> 'st \<Rightarrow> ('a, 'st) outcome"

text \<open>A parser of one byte. No parser reads at or after \<open>lim\<close>, nor outside the buffer.\<close>

definition char_parser :: "(char \<Rightarrow> bool) \<Rightarrow> (char, 'st) parser" where
  "char_parser P buf lim first st =
     (if first < lim \<and> first < length buf \<and> P (buf ! first)
      then Match (first + 1) (buf ! first) st
      else NoMatch st)"

text \<open>
  The source takes \<open>char_\<close> from the \<open>ascii\<close> namespace: a byte is a character of that
  encoding when it is below 128, and every \<open>ascii::char_\<close> parser rejects the other bytes.
\<close>

definition ischar :: "char \<Rightarrow> bool" where
  "ischar c \<longleftrightarrow> (of_char c :: nat) < 128"

text \<open>\<open>char_\<close>: any character of the encoding.\<close>

definition char_any :: "(char, 'st) parser" where
  "char_any = char_parser ischar"

text \<open>
  \<open>char_("...")\<close>: a character set given by a definition string, in which \<open>a-z\<close> is a
  range and a dash at either end stands for itself.
\<close>

fun chset :: "char \<Rightarrow> string \<Rightarrow> char \<Rightarrow> bool" where
  "chset ch [] x = (x = ch)"
| "chset ch (n # rest) x =
     (if n = CHR ''-'' then
        (case rest of
           [] \<Rightarrow> x = ch \<or> x = CHR ''-''
         | m # rest' \<Rightarrow>
             ((of_char ch :: nat) \<le> of_char x \<and> (of_char x :: nat) \<le> of_char m)
             \<or> chset m rest' x)
      else x = ch \<or> chset n rest x)"

definition in_chset :: "string \<Rightarrow> char \<Rightarrow> bool" where
  "in_chset d x = (case d of [] \<Rightarrow> False | c # cs \<Rightarrow> chset c cs x)"

definition char_set :: "string \<Rightarrow> (char, 'st) parser" where
  "char_set d = char_parser (\<lambda>c. ischar c \<and> in_chset d c)"

text \<open>\<open>char_(c)\<close> for one character \<open>c\<close>, in the \<open>ascii\<close> encoding.\<close>

definition char_lit :: "char \<Rightarrow> (char, 'st) parser" where
  "char_lit c = char_parser (\<lambda>x. ischar x \<and> x = c)"

text \<open>\<open>lit(c)\<close> for one character \<open>c\<close> and \<open>lit("...")\<close> for a string; no attribute.\<close>

definition lit_char :: "char \<Rightarrow> (unit, 'st) parser" where
  "lit_char c buf lim first st =
     (if first < lim \<and> first < length buf \<and> buf ! first = c
      then Match (first + 1) () st
      else NoMatch st)"

fun lit_from :: "string \<Rightarrow> string \<Rightarrow> nat \<Rightarrow> nat \<Rightarrow> nat option" where
  "lit_from [] buf lim i = Some i"
| "lit_from (c # cs) buf lim i =
     (if i < lim \<and> i < length buf \<and> buf ! i = c then lit_from cs buf lim (i + 1) else None)"

definition lit :: "string \<Rightarrow> (unit, 'st) parser" where
  "lit s buf lim first st =
     (case lit_from s buf lim first of Some i \<Rightarrow> Match i () st | None \<Rightarrow> NoMatch st)"

text \<open>\<open>eol\<close> matches CR LF, a lone CR or a lone LF; \<open>eoi\<close> matches at the end of the input.\<close>

definition eol :: "(unit, 'st) parser" where
  "eol buf lim first st =
     (let i1 = (if first < lim \<and> first < length buf \<and> buf ! first = CR then first + 1 else first);
          i2 = (if i1 < lim \<and> i1 < length buf \<and> buf ! i1 = LF then i1 + 1 else i1)
      in if i2 = first then NoMatch st else Match i2 () st)"

definition eoi :: "(unit, 'st) parser" where
  "eoi buf lim first st = (if first = lim then Match first () st else NoMatch st)"

text \<open>\<open>a >> b\<close>: both in turn; the attribute is the pair of the two attributes.\<close>

definition seq :: "('a, 'st) parser \<Rightarrow> ('b, 'st) parser \<Rightarrow> ('a \<times> 'b, 'st) parser" where
  "seq p q buf lim first st =
     (case p buf lim first st of
        Match i a st1 \<Rightarrow>
          (case q buf lim i st1 of
             Match j b st2 \<Rightarrow> Match j (a, b) st2
           | NoMatch st2 \<Rightarrow> NoMatch st2
           | Fault f \<Rightarrow> Fault f)
      | NoMatch st1 \<Rightarrow> NoMatch st1
      | Fault f \<Rightarrow> Fault f)"

text \<open>\<open>a | b\<close>: the first alternative that matches, the second one tried from the same
  position and in the state the first one left.\<close>

definition alt :: "('a, 'st) parser \<Rightarrow> ('b, 'st) parser \<Rightarrow> ('a + 'b, 'st) parser" where
  "alt p q buf lim first st =
     (case p buf lim first st of
        Match i a st1 \<Rightarrow> Match i (Inl a) st1
      | NoMatch st1 \<Rightarrow>
          (case q buf lim first st1 of
             Match j b st2 \<Rightarrow> Match j (Inr b) st2
           | NoMatch st2 \<Rightarrow> NoMatch st2
           | Fault f \<Rightarrow> Fault f)
      | Fault f \<Rightarrow> Fault f)"

text \<open>\<open>a - b\<close>: fails where \<open>b\<close> matches, and is \<open>a\<close> elsewhere.\<close>

definition diff :: "('a, 'st) parser \<Rightarrow> ('b, 'st) parser \<Rightarrow> ('a, 'st) parser" where
  "diff p q buf lim first st =
     (case q buf lim first st of
        Match i b st1 \<Rightarrow> NoMatch st1
      | NoMatch st1 \<Rightarrow> p buf lim first st1
      | Fault f \<Rightarrow> Fault f)"

text \<open>
  \<open>*a\<close>: the subject as often as it matches. Qi runs \<open>while (subject.parse(...))\<close> with no
  test for progress, so a subject that matches without consuming is repeated forever; the
  model answers \<open>Fault NoProgress\<close> there. The vector attribute of \<open>*\<close> and \<open>+\<close> is used
  nowhere in the source (they stand under \<open>raw\<close>, under \<open>omit\<close>, or in a grammar parsed
  without attribute), so the model does not build it.
\<close>

function kleene :: "('a, 'st) parser \<Rightarrow> (unit, 'st) parser" where
  "kleene p buf lim first st =
     (case p buf lim first st of
        Match i a st1 \<Rightarrow>
          (if first < i \<and> i \<le> lim then kleene p buf lim i st1 else Fault NoProgress)
      | NoMatch st1 \<Rightarrow> Match first () st1
      | Fault f \<Rightarrow> Fault f)"
  by pat_completeness auto
termination
  by (relation "measure (\<lambda>(p, buf, lim, first, st). lim - first)") auto

declare kleene.simps [simp del]

text \<open>\<open>+a\<close>: the subject once, then as often as it matches.\<close>

definition plus :: "('a, 'st) parser \<Rightarrow> (unit, 'st) parser" where
  "plus p buf lim first st =
     (case p buf lim first st of
        Match i a st1 \<Rightarrow> kleene p buf lim i st1
      | NoMatch st1 \<Rightarrow> NoMatch st1
      | Fault f \<Rightarrow> Fault f)"

text \<open>\<open>-a\<close>: the subject if it matches, and an empty match otherwise.\<close>

definition opt :: "('a, 'st) parser \<Rightarrow> ('a option, 'st) parser" where
  "opt p buf lim first st =
     (case p buf lim first st of
        Match i a st1 \<Rightarrow> Match i (Some a) st1
      | NoMatch st1 \<Rightarrow> Match first None st1
      | Fault f \<Rightarrow> Fault f)"

text \<open>\<open>&a\<close>: matches where the subject does, and consumes nothing.\<close>

definition and_pred :: "('a, 'st) parser \<Rightarrow> (unit, 'st) parser" where
  "and_pred p buf lim first st =
     (case p buf lim first st of
        Match i a st1 \<Rightarrow> Match first () st1
      | NoMatch st1 \<Rightarrow> NoMatch st1
      | Fault f \<Rightarrow> Fault f)"

text \<open>\<open>raw[a]\<close>: the attribute is the span that the subject consumed.\<close>

definition raw :: "('a, 'st) parser \<Rightarrow> (span_t, 'st) parser" where
  "raw p buf lim first st =
     (case p buf lim first st of
        Match i a st1 \<Rightarrow> Match i \<lparr>sbegin = first, send = i\<rparr> st1
      | NoMatch st1 \<Rightarrow> NoMatch st1
      | Fault f \<Rightarrow> Fault f)"

text \<open>\<open>omit[a]\<close>: the subject without its attribute.\<close>

definition omit :: "('a, 'st) parser \<Rightarrow> (unit, 'st) parser" where
  "omit p buf lim first st =
     (case p buf lim first st of
        Match i a st1 \<Rightarrow> Match i () st1
      | NoMatch st1 \<Rightarrow> NoMatch st1
      | Fault f \<Rightarrow> Fault f)"

text \<open>
  \<open>a[f]\<close>: the semantic action \<open>f\<close> runs as soon as the subject has matched, on the
  subject's attribute. An action is a function on the state that the source's lambda
  captures by reference; it answers \<open>Inl\<close> where the lambda has undefined behaviour.
\<close>

definition action :: "('a, 'st) parser \<Rightarrow> ('a \<Rightarrow> 'st \<Rightarrow> fault + 'st) \<Rightarrow> ('a, 'st) parser" where
  "action p f buf lim first st =
     (case p buf lim first st of
        Match i a st1 \<Rightarrow>
          (case f a st1 of Inl flt \<Rightarrow> Fault flt | Inr st2 \<Rightarrow> Match i a st2)
      | NoMatch st1 \<Rightarrow> NoMatch st1
      | Fault f \<Rightarrow> Fault f)"

text \<open>
  Qi drops the components without attribute from the attribute of a sequence and fits the
  rest to the structure it is parsed into; \<open>attr_to\<close> is that conversion, written out.
\<close>

definition attr_to :: "('a \<Rightarrow> 'b) \<Rightarrow> ('a, 'st) parser \<Rightarrow> ('b, 'st) parser" where
  "attr_to g p buf lim first st =
     (case p buf lim first st of
        Match i a st1 \<Rightarrow> Match i (g a) st1
      | NoMatch st1 \<Rightarrow> NoMatch st1
      | Fault f \<Rightarrow> Fault f)"

text \<open>Horizontal whitespace: \<open>sp = char_(" \t")\<close>.\<close>

definition sp :: "(char, 'st) parser" where
  "sp = char_set [CHR '' '', TAB]"

section \<open>Errors and the two parse drivers\<close>

text \<open>
  The source throws \<open>error\<close> with a description and, in the drivers, the location
  \<open>begin\<close>: when the top-level parser fails, Qi leaves \<open>begin\<close> at the start of the input.
  Every entry point takes its input span by reference, so it is modelled as a function to
  the pair of what the call returns or throws and of the caller's span afterwards. After a
  fault the source defines no span; the model leaves it as it was.
\<close>

datatype error = ParseFailure string "nat option" | Faulted fault

definition parse_direct ::
  "string \<Rightarrow> string \<Rightarrow> span_t \<Rightarrow> ('a, unit) parser \<Rightarrow> (error + 'a) \<times> span_t" where
  "parse_direct name buf input grammar =
     (case grammar buf (send input) (sbegin input) () of
        Match i R u \<Rightarrow> (Inr R, \<lparr>sbegin = i, send = send input\<rparr>)
      | NoMatch u \<Rightarrow>
          (Inl (ParseFailure (''Incomplete '' @ name @ ''.'') (Some (sbegin input))), input)
      | Fault f \<Rightarrow> (Inl (Faulted f), input))"

definition parse_indirect ::
  "string \<Rightarrow> string \<Rightarrow> span_t \<Rightarrow> ('a, 'st) parser \<Rightarrow> 'st \<Rightarrow> (error + 'st) \<times> span_t" where
  "parse_indirect name buf input grammar R0 =
     (case grammar buf (send input) (sbegin input) R0 of
        Match i a R \<Rightarrow> (Inr R, \<lparr>sbegin = i, send = send input\<rparr>)
      | NoMatch R \<Rightarrow>
          (Inl (ParseFailure (''Incomplete '' @ name @ ''.'') (Some (sbegin input))), input)
      | Fault f \<Rightarrow> (Inl (Faulted f), input))"

section \<open>Headers\<close>

text \<open>
  Modelled from the spec: the result structures are declared in \<open>parser_suite.hpp\<close>, which
  is not among the sources. A header entry is a key and the ordered list of its values; a
  header block is the ordered list of entries and the flag \<open>terminated\<close>, false until the
  terminator has been consumed.
\<close>

record header_t =
  key :: span_t
  hvalue :: "span_t list"

record parse_headers_result_t =
  headers :: "header_t list"
  terminated :: bool

definition headers_result_init :: parse_headers_result_t where
  "headers_result_init = \<lparr>headers = [], terminated = False\<rparr>"

text \<open>
  \<open>push_value\<close> is \<open>R.headers.back().value.push_back(value)\<close>: the source calls \<open>back()\<close>
  without a test, which is undefined on the empty list.
\<close>

definition push_value :: "span_t \<Rightarrow> parse_headers_result_t \<Rightarrow> fault + parse_headers_result_t" where
  "push_value v R =
     (if headers R = [] then Inl BackOfEmptyList
      else Inr (R\<lparr>headers :=
             butlast (headers R) @
             [(last (headers R))\<lparr>hvalue := hvalue (last (headers R)) @ [v]\<rparr>]\<rparr>))"

definition new_header :: "span_t \<Rightarrow> parse_headers_result_t \<Rightarrow> fault + parse_headers_result_t" where
  "new_header k R = Inr (R\<lparr>headers := headers R @ [\<lparr>key = k, hvalue = []\<rparr>]\<rparr>)"

definition set_terminated :: "'a \<Rightarrow> parse_headers_result_t \<Rightarrow> fault + parse_headers_result_t" where
  "set_terminated a R = Inr (R\<lparr>terminated := True\<rparr>)"

text \<open>
  The source keeps the grammar in a \<open>static\<close> object whose actions capture the result of
  the call that built it. The model describes one call, with a grammar whose actions write
  to the result of that call.
\<close>

definition headers_value :: "(span_t, 'st) parser" where
  "headers_value = raw (plus (diff char_any (char_set [CR, LF])))"

definition headers_key :: "(span_t, 'st) parser" where
  "headers_key =
     attr_to fst
       (seq (raw (kleene (diff char_any (char_set [CHR '' '', TAB, CHR '':'', CR, LF]))))
            (omit (lit '':'')))"

definition headers_header ::
  "((span_t \<times> unit \<times> span_t \<times> (unit + unit)) + (unit \<times> span_t \<times> (unit + unit)),
    parse_headers_result_t) parser" where
  "headers_header =
     alt (seq (action headers_key new_header)
           (seq (kleene sp)
             (seq (action headers_value push_value)
               (alt eol eoi))))
         (seq (plus (char_set [CHR '' '', TAB]))
           (seq (action headers_value push_value)
             (alt eol eoi)))"

definition headers_terminator :: "(unit \<times> unit, 'st) parser" where
  "headers_terminator = seq (kleene sp) eol"

definition headers_grammar ::
  "(unit \<times> (unit \<times> unit) option, parse_headers_result_t) parser" where
  "headers_grammar =
     seq (plus headers_header)
         (opt (action headers_terminator set_terminated))"

definition parse_headers :: "string \<Rightarrow> span_t \<Rightarrow> (error + parse_headers_result_t) \<times> span_t" where
  "parse_headers buf input =
     parse_indirect ''headers'' buf input headers_grammar headers_result_init"

section \<open>Request line and response line\<close>

text \<open>
  Modelled from the spec: the result structures of \<open>parser_suite.hpp\<close>, with the fields in
  the order in which the source adapts them. The method of a request line is the field
  \<open>http_method\<close> and the version of a response line the field \<open>response_version\<close>.
\<close>

record parse_request_line_result_t =
  http_method :: span_t
  uri :: span_t
  version :: span_t

record parse_response_line_result_t =
  response_version :: span_t
  status :: span_t
  message :: span_t

text \<open>An optional component that did not match leaves the default-constructed span.\<close>

definition span_or_default :: "span_t option \<Rightarrow> span_t" where
  "span_or_default v = (case v of None \<Rightarrow> span_default | Some s \<Rightarrow> s)"

definition line_word :: "(span_t, 'st) parser" where
  "line_word = raw (plus (diff char_any (char_set [CHR '' '', TAB, CR, LF])))"

definition request_line_grammar :: "(parse_request_line_result_t, 'st) parser" where
  "request_line_grammar =
     attr_to (\<lambda>(u1, m, u2, u, u3, v, u4).
                \<lparr>http_method = m, uri = u, version = span_or_default v\<rparr>)
       (seq (omit (kleene sp))
         (seq line_word
           (seq (omit (kleene sp))
             (seq line_word
               (seq (omit (kleene sp))
                 (seq (opt line_word)
                   (omit (alt eol eoi))))))))"

definition parse_request_line ::
  "string \<Rightarrow> span_t \<Rightarrow> (error + parse_request_line_result_t) \<times> span_t" where
  "parse_request_line buf input = parse_direct ''request line'' buf input request_line_grammar"

definition response_line_grammar :: "(parse_response_line_result_t, 'st) parser" where
  "response_line_grammar =
     attr_to (\<lambda>(u1, v, u2, s, u3, m, u4).
                \<lparr>response_version = v, status = s, message = m\<rparr>)
       (seq (omit (kleene sp))
         (seq line_word
           (seq (omit (kleene sp))
             (seq line_word
               (seq (omit (kleene sp))
                 (seq (raw (kleene (diff char_any (char_set [CR, LF]))))
                   (omit (alt eol eoi))))))))"

definition parse_response_line ::
  "string \<Rightarrow> span_t \<Rightarrow> (error + parse_response_line_result_t) \<times> span_t" where
  "parse_response_line buf input =
     parse_direct ''response line'' buf input response_line_grammar"

section \<open>URI\<close>

record parse_uri_result_t =
  scheme :: span_t
  authority :: span_t
  path :: span_t
  query :: span_t
  fragment :: span_t

definition uri_result_init :: parse_uri_result_t where
  "uri_result_init =
     \<lparr>scheme = span_default, authority = span_default, path = span_default,
      query = span_default, fragment = span_default\<rparr>"

text \<open>
  The source parses the grammar into the result \<open>R\<close>: Qi hands each component a reference
  to the field that it fills, and \<open>raw\<close> assigns the field as soon as its subject has
  matched. A failure later in the same optional sequence does not undo the assignment: when
  the run of scheme characters matches and the colon does not, the run stays in \<open>scheme\<close>.
  The model therefore takes the result as the state of the grammar, and \<open>into\<close> is the
  assignment of a matched attribute to its field; the grammar itself has no further
  attribute.
\<close>

definition into :: "('a, 'st) parser \<Rightarrow> ('a \<Rightarrow> 'st \<Rightarrow> 'st) \<Rightarrow> ('a, 'st) parser" where
  "into p g buf lim first st =
     (case p buf lim first st of
        Match i a st1 \<Rightarrow> Match i a (g a st1)
      | NoMatch st1 \<Rightarrow> NoMatch st1
      | Fault f \<Rightarrow> Fault f)"

definition uri_grammar :: "(unit, parse_uri_result_t) parser" where
  "uri_grammar =
     attr_to (\<lambda>a. ())
       (seq (opt (seq (into (raw (plus (char_set ''-A-Za-z0-9+.''))) (\<lambda>s R. R\<lparr>scheme := s\<rparr>))
                      (omit (char_set '':''))))
         (seq (opt (seq (omit (lit ''//''))
                        (into (raw (kleene (diff char_any
                           (char_set [CHR '' '', TAB, CHR ''/'', CHR ''?'', CHR ''#'', CR, LF]))))
                          (\<lambda>s R. R\<lparr>authority := s\<rparr>))))
           (seq (opt (into (raw (kleene (diff char_any
                           (char_set [CHR '' '', TAB, CHR ''?'', CHR ''#'', CR, LF]))))
                        (\<lambda>s R. R\<lparr>path := s\<rparr>)))
             (seq (opt (seq (omit (char_set ''?''))
                            (into (raw (kleene (diff char_any
                               (char_set [CHR '' '', CHR '' '', CHR ''#'', CR, LF]))))
                              (\<lambda>s R. R\<lparr>query := s\<rparr>))))
               (seq (opt (seq (omit (char_set ''#''))
                              (into (raw (kleene (diff char_any
                                 (char_set [CHR '' '', CHR '' '', CR, LF]))))
                                (\<lambda>s R. R\<lparr>fragment := s\<rparr>))))
                 (omit (alt eol eoi)))))))"

definition parse_uri :: "string \<Rightarrow> span_t \<Rightarrow> (error + parse_uri_result_t) \<times> span_t" where
  "parse_uri buf input =
     (case uri_grammar buf (send input) (sbegin input) uri_result_init of
        Match i a R \<Rightarrow> (Inr R, \<lparr>sbegin = i, send = send input\<rparr>)
      | NoMatch R \<Rightarrow> (Inl (ParseFailure ''Incomplete URI.'' (Some (sbegin input))), input)
      | Fault f \<Rightarrow> (Inl (Faulted f), input))"

section \<open>Requests and responses\<close>

record parse_request_result_t =
  raw_request_line :: span_t
  request_line :: parse_request_line_result_t
  request_uri :: parse_uri_result_t
  request_headers :: parse_headers_result_t

record parse_response_result_t =
  raw_response_line :: span_t
  response_line :: parse_response_line_result_t
  response_headers :: parse_headers_result_t

text \<open>
  \<open>parse_request\<close> keeps the start of the input, parses the request line, takes the raw
  line as \<open>span_t(begin, input.begin() - 1)\<close>, parses the URI on a copy of the URI span,
  throws when that copy is not used up, and parses the headers on what remains. An
  exception leaves the caller's span as the last successful step set it.
\<close>

definition parse_request :: "string \<Rightarrow> span_t \<Rightarrow> (error + parse_request_result_t) \<times> span_t" where
  "parse_request buf input =
     (let begin0 = sbegin input in
      case parse_request_line buf input of
        (Inl e, input1) \<Rightarrow> (Inl e, input1)
      | (Inr rl, input1) \<Rightarrow>
          (let rawl = \<lparr>sbegin = begin0, send = sbegin input1 - 1\<rparr> in
           case parse_uri buf (uri rl) of
             (Inl e, uri1) \<Rightarrow> (Inl e, input1)
           | (Inr u, uri1) \<Rightarrow>
               if \<not> span_empty uri1
               then (Inl (ParseFailure ''URI not fully parsed.'' None), input1)
               else
                 (case parse_headers buf input1 of
                    (Inl e, input2) \<Rightarrow> (Inl e, input2)
                  | (Inr h, input2) \<Rightarrow>
                      (Inr \<lparr>raw_request_line = rawl, request_line = rl,
                            request_uri = u, request_headers = h\<rparr>, input2))))"

definition parse_response :: "string \<Rightarrow> span_t \<Rightarrow> (error + parse_response_result_t) \<times> span_t" where
  "parse_response buf input =
     (let begin0 = sbegin input in
      case parse_response_line buf input of
        (Inl e, input1) \<Rightarrow> (Inl e, input1)
      | (Inr sl, input1) \<Rightarrow>
          (let rawl = \<lparr>sbegin = begin0, send = sbegin input1 - 1\<rparr> in
           case parse_headers buf input1 of
             (Inl e, input2) \<Rightarrow> (Inl e, input2)
           | (Inr h, input2) \<Rightarrow>
               (Inr \<lparr>raw_response_line = rawl, response_line = sl,
                     response_headers = h\<rparr>, input2)))"

section \<open>Authority\<close>

record parse_authority_result_t =
  username :: span_t
  password :: span_t
  host :: span_t
  port :: span_t

definition authority_result_init :: parse_authority_result_t where
  "authority_result_init =
     \<lparr>username = span_default, password = span_default,
      host = span_default, port = span_default\<rparr>"

definition set_username :: "span_t \<Rightarrow> parse_authority_result_t \<Rightarrow> fault + parse_authority_result_t" where
  "set_username s R = Inr (R\<lparr>username := s\<rparr>)"

definition set_password :: "span_t \<Rightarrow> parse_authority_result_t \<Rightarrow> fault + parse_authority_result_t" where
  "set_password s R = Inr (R\<lparr>password := s\<rparr>)"

definition set_host :: "span_t \<Rightarrow> parse_authority_result_t \<Rightarrow> fault + parse_authority_result_t" where
  "set_host s R = Inr (R\<lparr>host := s\<rparr>)"

definition set_port :: "span_t \<Rightarrow> parse_authority_result_t \<Rightarrow> fault + parse_authority_result_t" where
  "set_port s R = Inr (R\<lparr>port := s\<rparr>)"

definition only_host :: "span_t \<Rightarrow> parse_authority_result_t \<Rightarrow> fault + parse_authority_result_t" where
  "only_host s R = set_host s authority_result_init"

definition authority_word :: "(span_t, 'st) parser" where
  "authority_word =
     raw (kleene (diff char_any (char_set [CHR ''@'', CHR '':'', CHR '' '', TAB, CR, LF])))"

definition authority_userinfo ::
  "(span_t option \<times> (unit \<times> span_t) option \<times> unit \<times> span_t, parse_authority_result_t) parser" where
  "authority_userinfo =
     seq (opt (action authority_word set_username))
       (seq (opt (seq (omit (lit '':'')) (action authority_word set_password)))
         (seq (omit (lit ''@''))
           (action authority_word set_host)))"

definition authority_grammar ::
  "(((span_t option \<times> (unit \<times> span_t) option \<times> unit \<times> span_t) + span_t)
     \<times> (unit \<times> span_t) option, parse_authority_result_t) parser" where
  "authority_grammar =
     seq (alt authority_userinfo (action authority_word only_host))
         (opt (seq (omit (lit '':'')) (action authority_word set_port)))"

definition parse_authority ::
  "string \<Rightarrow> span_t \<Rightarrow> (error + parse_authority_result_t) \<times> span_t" where
  "parse_authority buf input =
     parse_indirect ''authority'' buf input authority_grammar authority_result_init"

section \<open>Path\<close>

record parse_path_result_t =
  directory :: span_t
  file_span :: span_t
  base :: span_t
  extension :: span_t
  directory_separator :: char
  extension_separator :: char

definition dirsep :: "char \<Rightarrow> (unit, 'st) parser" where
  "dirsep ds = lit_char ds"

definition dirstr :: "char \<Rightarrow> (unit, 'st) parser" where
  "dirstr ds = kleene (diff char_any (char_lit ds))"

definition extsep :: "char \<Rightarrow> (unit, 'st) parser" where
  "extsep es = lit_char es"

definition extstr :: "char \<Rightarrow> (unit, 'st) parser" where
  "extstr es = kleene (diff char_any (char_lit es))"

definition path_grammar :: "char \<Rightarrow> char \<Rightarrow> (span_t \<times> span_t \<times> span_t, 'st) parser" where
  "path_grammar ds es =
     attr_to (\<lambda>(d, u, b, e). (d, b, span_or_default (map_option snd e)))
       (seq (raw (kleene (seq (opt (dirsep ds)) (seq (dirstr ds) (and_pred (dirsep ds))))))
         (seq (opt (omit (dirsep ds)))
           (seq (raw (seq (extstr es)
                          (kleene (seq (extsep es) (seq (extstr es) (and_pred (extsep es)))))))
             (opt (seq (omit (extsep es)) (raw (kleene char_any)))))))"

definition parse_path ::
  "string \<Rightarrow> span_t \<Rightarrow> char \<Rightarrow> char \<Rightarrow> (error + parse_path_result_t) \<times> span_t" where
  "parse_path buf input ds es =
     (case parse_direct ''path'' buf input (path_grammar ds es) of
        (Inl e, input1) \<Rightarrow> (Inl e, input1)
      | (Inr (d, b, e), input1) \<Rightarrow>
          (Inr \<lparr>directory = d,
                file_span = (if span_empty e then b else \<lparr>sbegin = sbegin b, send = send e\<rparr>),
                base = b, extension = e,
                directory_separator = ds, extension_separator = es\<rparr>, input1))"

section \<open>Notions used to state the properties\<close>

subsection \<open>Results as bytes\<close>

text \<open>What a call returned, when it returned.\<close>

definition result_of :: "(error + 'a) \<times> span_t \<Rightarrow> 'a option" where
  "result_of r = (case fst r of Inl e \<Rightarrow> None | Inr R \<Rightarrow> Some R)"

text \<open>
  The bytes of the header entries of a result, of the four fields of an authority, and of
  the directory, base, extension and file of a path.
\<close>

definition headers_text :: "string \<Rightarrow> parse_headers_result_t \<Rightarrow> (string \<times> string list) list" where
  "headers_text buf R =
     map (\<lambda>h. (span_text buf (key h), map (span_text buf) (hvalue h))) (headers R)"

definition authority_text :: "string \<Rightarrow> parse_authority_result_t \<Rightarrow> string list" where
  "authority_text buf R = map (span_text buf) [username R, password R, host R, port R]"

definition path_text :: "string \<Rightarrow> parse_path_result_t \<Rightarrow> string list" where
  "path_text buf R = map (span_text buf) [directory R, base R, extension R, file_span R]"

text \<open>An authority whose username is empty and whose password is not.\<close>

definition password_without_username :: "parse_authority_result_t \<Rightarrow> bool" where
  "password_without_username R \<longleftrightarrow> span_empty (username R) \<and> \<not> span_empty (password R)"

subsection \<open>Regions of the input\<close>

text \<open>
  The span that a call consumed when it took the caller's span from \<open>before\<close> to
  \<open>after\<close>, and the span \<open>between\<close> two spans, from the end of the first to the start of
  the second.
\<close>

definition consumed :: "span_t \<Rightarrow> span_t \<Rightarrow> span_t" where
  "consumed before after = \<lparr>sbegin = sbegin before, send = sbegin after\<rparr>"

definition between :: "span_t \<Rightarrow> span_t \<Rightarrow> span_t" where
  "between a b = \<lparr>sbegin = send a, send = sbegin b\<rparr>"

text \<open>
  The region that the header-block parse of \<open>parse_request\<close> and of \<open>parse_response\<close>
  consumes: it starts where the parse of the first line left the input and ends where the
  whole call leaves it.
\<close>

definition request_headers_region :: "string \<Rightarrow> span_t \<Rightarrow> span_t" where
  "request_headers_region buf input =
     consumed (snd (parse_request_line buf input)) (snd (parse_request buf input))"

definition response_headers_region :: "string \<Rightarrow> span_t \<Rightarrow> span_t" where
  "response_headers_region buf input =
     consumed (snd (parse_response_line buf input)) (snd (parse_response buf input))"

text \<open>The raw first line of a result followed by the region of its headers.\<close>

definition request_raw_line_and_headers :: "string \<Rightarrow> span_t \<Rightarrow> string option" where
  "request_raw_line_and_headers buf input =
     map_option
       (\<lambda>R. span_text buf (raw_request_line R) @ span_text buf (request_headers_region buf input))
       (result_of (parse_request buf input))"

definition response_raw_line_and_headers :: "string \<Rightarrow> span_t \<Rightarrow> string option" where
  "response_raw_line_and_headers buf input =
     map_option
       (\<lambda>R. span_text buf (raw_response_line R) @ span_text buf (response_headers_region buf input))
       (result_of (parse_response buf input))"

subsection \<open>Properties of parsers\<close>

text \<open>
  A parser is \<open>advancing\<close> when a match never moves the position backwards nor beyond the
  end of the input, and makes \<open>progress\<close> when a match consumes at least one byte. It is
  \<open>faultless\<close> when it always returns, and \<open>total\<close> when it always matches. It
  \<open>ends_line\<close> when each of its matches ends at the end of the input or just after a CR
  or an LF.
\<close>

definition advancing :: "('a, 'st) parser \<Rightarrow> bool" where
  "advancing p = (\<forall>buf lim i st j a st'.
     p buf lim i st = Match j a st' \<longrightarrow> i \<le> j \<and> (i \<le> lim \<longrightarrow> j \<le> lim))"

definition progress :: "('a, 'st) parser \<Rightarrow> bool" where
  "progress p = (\<forall>buf lim i st j a st'.
     p buf lim i st = Match j a st' \<longrightarrow> i < j \<and> j \<le> lim)"

definition faultless :: "('a, 'st) parser \<Rightarrow> bool" where
  "faultless p = (\<forall>buf lim i st f. p buf lim i st \<noteq> Fault f)"

definition total :: "('a, 'st) parser \<Rightarrow> bool" where
  "total p = (\<forall>buf lim i st. \<exists>j a st'. p buf lim i st = Match j a st')"

definition ends_line :: "('a, 'st) parser \<Rightarrow> bool" where
  "ends_line p = (\<forall>buf lim i st j a st'.
     p buf lim i st = Match j a st' \<longrightarrow>
       j = lim \<or> (0 < j \<and> j \<le> length buf \<and> (buf ! (j - 1) = CR \<or> buf ! (j - 1) = LF)))"

text \<open>
  A parser \<open>starts_with\<close> a property when each of its matches begins on a byte of the
  input that has the property; \<open>not_eol_byte\<close> is the property of being neither CR nor LF.
\<close>

definition starts_with :: "(char \<Rightarrow> bool) \<Rightarrow> ('a, 'st) parser \<Rightarrow> bool" where
  "starts_with Q p = (\<forall>buf lim i st j a st'.
     p buf lim i st = Match j a st' \<longrightarrow> i < lim \<and> i < length buf \<and> Q (buf ! i))"

definition not_eol_byte :: "char \<Rightarrow> bool" where
  "not_eol_byte c \<longleftrightarrow> c \<noteq> CR \<and> c \<noteq> LF"

text \<open>
  The end of the longest run of bytes with the property \<open>P\<close> that starts at \<open>i\<close>: where
  the repetition of a one-byte parser stops.
\<close>

function run_end :: "(char \<Rightarrow> bool) \<Rightarrow> string \<Rightarrow> nat \<Rightarrow> nat \<Rightarrow> nat" where
  "run_end P buf lim i =
     (if i < lim \<and> i < length buf \<and> P (buf ! i) then run_end P buf lim (i + 1) else i)"
  by pat_completeness auto
termination
  by (relation "measure (\<lambda>(P, buf, lim, i). lim - i)") auto

declare run_end.simps [simp del]

text \<open>The bytes of a word of the authority grammar.\<close>

definition authority_char :: "char \<Rightarrow> bool" where
  "authority_char c =
     (ischar c \<and> \<not> (ischar c \<and> in_chset [CHR ''@'', CHR '':'', CHR '' '', TAB, CR, LF] c))"

subsection \<open>The rule of the authority grammar, on runs of bytes\<close>

text \<open>
  A word of an authority ends where the run of its bytes ends. The userinfo of an authority,
  an optional username word and an optional colon and password word, ends at
  \<open>userinfo_end\<close>; the userinfo branch applies when the byte at that position is an at
  sign.
\<close>

definition word_end :: "string \<Rightarrow> span_t \<Rightarrow> nat \<Rightarrow> nat" where
  "word_end buf input i = run_end authority_char buf (send input) i"

definition byte_is :: "string \<Rightarrow> span_t \<Rightarrow> nat \<Rightarrow> char \<Rightarrow> bool" where
  "byte_is buf input k c \<longleftrightarrow> k < send input \<and> k < length buf \<and> buf ! k = c"

definition userinfo_end :: "string \<Rightarrow> span_t \<Rightarrow> nat" where
  "userinfo_end buf input =
     (let u = word_end buf input (sbegin input)
      in if byte_is buf input u (CHR '':'') then word_end buf input (u + 1) else u)"

definition userinfo_applies :: "string \<Rightarrow> span_t \<Rightarrow> bool" where
  "userinfo_applies buf input \<longleftrightarrow> byte_is buf input (userinfo_end buf input) (CHR ''@'')"

subsection \<open>Inputs of the examples\<close>

text \<open>Header blocks: a folded line, a key without value after a full line, and a
  continuation line as the first line.\<close>

definition folded_headers :: string where
  "folded_headers = ''A: 1'' @ [CR, LF] @ '' B: 2'' @ [CR, LF, CR, LF]"

definition dangling_headers :: string where
  "dangling_headers = ''A:1'' @ [LF] @ ''B:''"

definition continuation_first :: string where
  "continuation_first = '' B: 2'' @ [CR, LF, CR, LF]"

text \<open>Requests and responses whose lines end in CR LF, and in LF.\<close>

definition crlf_request :: string where
  "crlf_request = ''GET / HTTP/1.1'' @ [CR, LF] @ ''A: 1'' @ [CR, LF]"

definition crlf_response :: string where
  "crlf_response = ''HTTP/1.1 200 OK'' @ [CR, LF] @ ''A: 1'' @ [CR, LF]"

definition lf_request :: string where
  "lf_request = ''GET / HTTP/1.1'' @ [LF] @ ''A: 1'' @ [LF]"

definition lf_response :: string where
  "lf_response = ''HTTP/1.1 200 OK'' @ [LF] @ ''A: 1'' @ [LF]"

text \<open>A path, and authorities: with userinfo, without, with two colons before the at
  sign, and with a password and no username.\<close>

definition archive_path :: string where
  "archive_path = ''/a/b/archive.tar.gz''"

definition userinfo_authority :: string where
  "userinfo_authority = ''user:pass@host:80''"

definition host_port_authority :: string where
  "host_port_authority = ''host:80''"

definition two_colons_authority :: string where
  "two_colons_authority = ''a:b:c@h''"

definition colon_password :: string where
  "colon_password = '':p@h''"

text \<open>Inputs on which the parsers fail.\<close>

definition no_headers :: string where
  "no_headers = []"

definition short_request_line :: string where
  "short_request_line = ''GET''"

definition short_response_line :: string where
  "short_response_line = ''HTTP/1.1''"

definition spaced_uri :: string where
  "spaced_uri = ''a b''"

section \<open>Positions of a match\<close>

lemma progress_advancing: "progress p \<Longrightarrow> advancing p"
  unfolding progress_def advancing_def by fastforce

lemma progress_char_parser: "progress (char_parser P)"
  unfolding progress_def char_parser_def by (auto split: if_splits)

lemma progress_char_any: "progress char_any"
  unfolding char_any_def by (rule progress_char_parser)

lemma progress_char_set: "progress (char_set d)"
  unfolding char_set_def by (rule progress_char_parser)

lemma progress_char_lit: "progress (char_lit c)"
  unfolding char_lit_def by (rule progress_char_parser)

lemma progress_lit_char: "progress (lit_char c)"
  unfolding progress_def lit_char_def by (auto split: if_splits)

lemma lit_from_bounds: "lit_from s buf lim i = Some j \<Longrightarrow> i \<le> j \<and> (i \<le> lim \<longrightarrow> j \<le> lim)"
  by (induction s buf lim i rule: lit_from.induct) (auto split: if_splits)

lemma advancing_lit: "advancing (lit s)"
  unfolding advancing_def lit_def using lit_from_bounds
  by (fastforce split: option.splits)

lemma advancing_eol: "advancing eol"
  unfolding advancing_def eol_def Let_def by (auto split: if_splits)

lemma advancing_eoi: "advancing eoi"
  unfolding advancing_def eoi_def by (auto split: if_splits)

lemma advancing_seq: "advancing p \<Longrightarrow> advancing q \<Longrightarrow> advancing (seq p q)"
  unfolding advancing_def seq_def by (fastforce split: outcome.splits)

lemma progress_seq_left: "progress p \<Longrightarrow> advancing q \<Longrightarrow> progress (seq p q)"
  unfolding advancing_def progress_def seq_def by (fastforce split: outcome.splits)

lemma progress_seq_right: "advancing p \<Longrightarrow> progress q \<Longrightarrow> progress (seq p q)"
  unfolding advancing_def progress_def seq_def by (fastforce split: outcome.splits)

lemma advancing_alt: "advancing p \<Longrightarrow> advancing q \<Longrightarrow> advancing (alt p q)"
  unfolding advancing_def alt_def by (fastforce split: outcome.splits)

lemma progress_alt: "progress p \<Longrightarrow> progress q \<Longrightarrow> progress (alt p q)"
  unfolding progress_def alt_def by (fastforce split: outcome.splits)

lemma advancing_diff: "advancing p \<Longrightarrow> advancing (diff p q)"
  unfolding advancing_def diff_def by (fastforce split: outcome.splits)

lemma progress_diff: "progress p \<Longrightarrow> progress (diff p q)"
  unfolding progress_def diff_def by (fastforce split: outcome.splits)

lemma kleene_bounds:
  "kleene p buf lim i st = Match j a st' \<Longrightarrow> i \<le> j \<and> (i \<le> lim \<longrightarrow> j \<le> lim)"
proof (induction p buf lim i st rule: kleene.induct)
  case (1 p buf lim first st)
  show ?case
  proof (cases "p buf lim first st")
    case (Match i b st1)
    with "1.prems" have guard: "first < i \<and> i \<le> lim"
      by (simp add: kleene.simps [of p buf lim first st] split: if_splits)
    with Match "1.prems" have "kleene p buf lim i st1 = Match j a st'"
      by (simp add: kleene.simps [of p buf lim first st])
    with "1.IH" [OF Match guard] guard show ?thesis by simp
  next
    case (NoMatch st1)
    with "1.prems" show ?thesis by (simp add: kleene.simps [of p buf lim first st])
  next
    case (Fault f)
    with "1.prems" show ?thesis by (simp add: kleene.simps [of p buf lim first st])
  qed
qed

lemma advancing_kleene: "advancing (kleene p)"
  unfolding advancing_def
proof (intro allI impI)
  fix buf lim i st j a st'
  assume "kleene p buf lim i st = Match j a st'"
  then show "i \<le> j \<and> (i \<le> lim \<longrightarrow> j \<le> lim)"
    by (rule kleene_bounds)
qed

lemma progress_plus:
  assumes "progress p"
  shows "progress (plus p)"
  unfolding progress_def
proof (intro allI impI)
  fix buf lim i st j a st'
  assume "plus p buf lim i st = Match j a st'"
  then obtain k b st1 where p: "p buf lim i st = Match k b st1"
    and k: "kleene p buf lim k st1 = Match j a st'"
    unfolding plus_def by (auto split: outcome.splits)
  from assms [unfolded progress_def, rule_format, OF p] have "i < k \<and> k \<le> lim" .
  moreover from kleene_bounds [OF k] have "k \<le> j \<and> (k \<le> lim \<longrightarrow> j \<le> lim)" .
  ultimately show "i < j \<and> j \<le> lim" by simp
qed

lemma advancing_opt: "advancing p \<Longrightarrow> advancing (opt p)"
  unfolding advancing_def opt_def by (fastforce split: outcome.splits)

lemma advancing_raw: "advancing p \<Longrightarrow> advancing (raw p)"
  unfolding advancing_def raw_def by (fastforce split: outcome.splits)

lemma progress_raw: "progress p \<Longrightarrow> progress (raw p)"
  unfolding progress_def raw_def by (fastforce split: outcome.splits)

lemma advancing_omit: "advancing p \<Longrightarrow> advancing (omit p)"
  unfolding advancing_def omit_def by (fastforce split: outcome.splits)

lemma progress_omit: "progress p \<Longrightarrow> progress (omit p)"
  unfolding progress_def omit_def by (fastforce split: outcome.splits)

lemma advancing_action: "advancing p \<Longrightarrow> advancing (action p f)"
  unfolding advancing_def action_def by (fastforce split: outcome.splits sum.splits)

lemma progress_action: "progress p \<Longrightarrow> progress (action p f)"
  unfolding progress_def action_def by (fastforce split: outcome.splits sum.splits)

lemma advancing_attr_to: "advancing p \<Longrightarrow> advancing (attr_to g p)"
  unfolding advancing_def attr_to_def by (fastforce split: outcome.splits)

lemma progress_attr_to: "progress p \<Longrightarrow> progress (attr_to g p)"
  unfolding progress_def attr_to_def by (fastforce split: outcome.splits)

lemmas advancing_intros =
  advancing_lit advancing_eol advancing_eoi advancing_seq advancing_alt advancing_diff
  advancing_kleene advancing_opt advancing_raw advancing_omit advancing_action advancing_attr_to

lemmas progress_intros =
  progress_char_any progress_char_set progress_char_lit progress_lit_char
  progress_diff progress_plus progress_raw progress_omit progress_action progress_attr_to

lemma progress_line_word: "progress line_word"
  unfolding line_word_def by (intro progress_intros)

lemma advancing_line_word: "advancing line_word"
  by (rule progress_advancing [OF progress_line_word])

lemma progress_request_line_grammar: "progress request_line_grammar"
  unfolding request_line_grammar_def
  apply (rule progress_attr_to)
  apply (rule progress_seq_right)
   apply (intro advancing_intros)
  apply (rule progress_seq_left)
   apply (rule progress_line_word)
  apply (intro advancing_intros advancing_line_word)
  done

lemma progress_response_line_grammar: "progress response_line_grammar"
  unfolding response_line_grammar_def
  apply (rule progress_attr_to)
  apply (rule progress_seq_right)
   apply (intro advancing_intros)
  apply (rule progress_seq_left)
   apply (rule progress_line_word)
  apply (intro advancing_intros advancing_line_word)
  done

lemma progress_headers_value: "progress headers_value"
  unfolding headers_value_def by (intro progress_intros)

lemma advancing_headers_value: "advancing headers_value"
  by (rule progress_advancing [OF progress_headers_value])

lemma advancing_headers_key: "advancing headers_key"
  unfolding headers_key_def by (intro advancing_intros)

lemma progress_headers_header: "progress headers_header"
  unfolding headers_header_def
  apply (rule progress_alt)
   apply (rule progress_seq_right)
    apply (intro advancing_intros advancing_headers_key)
   apply (rule progress_seq_right)
    apply (rule advancing_kleene)
   apply (rule progress_seq_left)
    apply (intro progress_intros progress_headers_value)
   apply (intro advancing_intros)
  apply (rule progress_seq_left)
   apply (intro progress_intros)
  apply (intro advancing_intros advancing_headers_value)
  done

lemma progress_headers_grammar: "progress headers_grammar"
  unfolding headers_grammar_def headers_terminator_def
  apply (rule progress_seq_left)
   apply (intro progress_intros progress_headers_header)
  apply (intro advancing_intros)
  done

subsection \<open>Runs of bytes\<close>

lemma run_end_bounds: "i \<le> run_end P buf lim i \<and> (i \<le> lim \<longrightarrow> run_end P buf lim i \<le> lim)"
proof (induction P buf lim i rule: run_end.induct)
  case (1 P buf lim i)
  show ?case
  proof (cases "i < lim \<and> i < length buf \<and> P (buf ! i)")
    case True
    with 1 show ?thesis by (subst (1 2) run_end.simps) auto
  next
    case False
    then show ?thesis by (subst (1 2) run_end.simps) auto
  qed
qed

lemma kleene_char_parser:
  "kleene (char_parser P) buf lim i st = Match (run_end P buf lim i) () st"
proof (induction P buf lim i rule: run_end.induct)
  case (1 P buf lim i)
  show ?case
  proof (cases "i < lim \<and> i < length buf \<and> P (buf ! i)")
    case True
    then have c: "char_parser P buf lim i st = Match (i + 1) (buf ! i) st"
      by (simp add: char_parser_def)
    from True have r: "run_end P buf lim i = run_end P buf lim (i + 1)"
      by (subst run_end.simps) simp
    from True c 1 show ?thesis
      unfolding r by (subst kleene.simps) simp
  next
    case False
    then have c: "char_parser P buf lim i st = NoMatch st"
      by (auto simp add: char_parser_def)
    from False have r: "run_end P buf lim i = i"
      by (subst run_end.simps) auto
    from c show ?thesis
      unfolding r by (subst kleene.simps) simp
  qed
qed

lemma diff_char_parser:
  "diff (char_parser P) (char_parser Q) buf lim i st = char_parser (\<lambda>c. P c \<and> \<not> Q c) buf lim i st"
  by (auto simp: diff_def char_parser_def)

lemma diff_char_parser_eq:
  "diff (char_parser P) (char_parser Q) = char_parser (\<lambda>c. P c \<and> \<not> Q c)"
  by (intro ext) (rule diff_char_parser)

lemma authority_word_run:
  "authority_word buf lim i st =
     Match (run_end authority_char buf lim i) \<lparr>sbegin = i, send = run_end authority_char buf lim i\<rparr> st"
  unfolding authority_word_def char_any_def char_set_def diff_char_parser_eq raw_def
    kleene_char_parser authority_char_def
  by simp

lemma lit_single:
  "lit [c] buf lim i st =
     (if i < lim \<and> i < length buf \<and> buf ! i = c then Match (i + 1) () st else NoMatch st)"
  by (simp add: lit_def)

subsection \<open>The authority grammar in closed form\<close>

lemma authority_userinfo_closed:
  assumes u: "u = run_end authority_char buf lim i"
    and colon: "colon = (u < lim \<and> u < length buf \<and> buf ! u = CHR '':'')"
    and p: "p = run_end authority_char buf lim (u + 1)"
    and q: "q = (if colon then p else u)"
    and at: "at = (q < lim \<and> q < length buf \<and> buf ! q = CHR ''@'')"
    and h: "h = run_end authority_char buf lim (q + 1)"
    and R2: "R2 = (if colon then R0\<lparr>username := \<lparr>sbegin = i, send = u\<rparr>,
                                   password := \<lparr>sbegin = u + 1, send = p\<rparr>\<rparr>
                   else R0\<lparr>username := \<lparr>sbegin = i, send = u\<rparr>\<rparr>)"
  shows "authority_userinfo buf lim i R0 =
     (if at
      then Match h (Some \<lparr>sbegin = i, send = u\<rparr>,
                    (if colon then Some ((), \<lparr>sbegin = u + 1, send = p\<rparr>) else None),
                    (), \<lparr>sbegin = q + 1, send = h\<rparr>)
             (R2\<lparr>host := \<lparr>sbegin = q + 1, send = h\<rparr>\<rparr>)
      else NoMatch R2)"
  unfolding authority_userinfo_def seq_def opt_def omit_def action_def authority_word_run
    lit_single set_username_def set_password_def set_host_def
    u [symmetric]
  by (simp add: colon p q at h R2)

lemma authority_grammar_closed:
  assumes u: "u = run_end authority_char buf lim i"
    and colon: "colon = (u < lim \<and> u < length buf \<and> buf ! u = CHR '':'')"
    and p: "p = run_end authority_char buf lim (u + 1)"
    and q: "q = (if colon then p else u)"
    and at: "at = (q < lim \<and> q < length buf \<and> buf ! q = CHR ''@'')"
    and h: "h = run_end authority_char buf lim (q + 1)"
    and m: "m = (if at then h else u)"
    and pc: "pc = (m < lim \<and> m < length buf \<and> buf ! m = CHR '':'')"
    and e: "e = run_end authority_char buf lim (m + 1)"
  shows "\<exists>a. authority_grammar buf lim i authority_result_init =
     Match (if pc then e else m) a
       \<lparr>username = (if at then \<lparr>sbegin = i, send = u\<rparr> else span_default),
        password = (if at \<and> colon then \<lparr>sbegin = u + 1, send = p\<rparr> else span_default),
        host = (if at then \<lparr>sbegin = q + 1, send = h\<rparr> else \<lparr>sbegin = i, send = u\<rparr>),
        port = (if pc then \<lparr>sbegin = m + 1, send = e\<rparr> else span_default)\<rparr>"
proof -
  note ui = authority_userinfo_closed [OF u colon p q at h refl, of authority_result_init]
  show ?thesis
  proof (cases at)
    case True
    with m have mh: "h = m" by simp
    from True show ?thesis
      unfolding authority_grammar_def seq_def alt_def ui opt_def omit_def action_def
        authority_word_run lit_single set_port_def only_host_def set_host_def mh
      by (simp add: pc e authority_result_init_def)
  next
    case False
    with m have mu: "m = u" by simp
    from False show ?thesis
      unfolding authority_grammar_def seq_def alt_def ui opt_def omit_def action_def
        authority_word_run lit_single set_port_def only_host_def set_host_def u [symmetric]
      by (simp add: pc e mu authority_result_init_def)
  qed
qed

subsection \<open>Parsers that always return\<close>

lemma faultless_char_parser: "faultless (char_parser P)"
  unfolding faultless_def char_parser_def by simp

lemma faultless_char_any: "faultless char_any"
  unfolding char_any_def by (rule faultless_char_parser)

lemma faultless_char_lit: "faultless (char_lit c)"
  unfolding char_lit_def by (rule faultless_char_parser)

lemma faultless_lit_char: "faultless (lit_char c)"
  unfolding faultless_def lit_char_def by simp

lemma total_faultless: "total p \<Longrightarrow> faultless p"
  unfolding total_def faultless_def
proof (intro allI)
  fix buf lim i st f
  assume "\<forall>buf lim i st. \<exists>j a st'. p buf lim i st = Match j a st'"
  then obtain j a st' where "p buf lim i st = Match j a st'" by blast
  then show "p buf lim i st \<noteq> Fault f" by simp
qed

lemma faultless_seq: "faultless p \<Longrightarrow> faultless q \<Longrightarrow> faultless (seq p q)"
  unfolding faultless_def seq_def by (auto split: outcome.splits)

lemma faultless_diff: "faultless p \<Longrightarrow> faultless q \<Longrightarrow> faultless (diff p q)"
  unfolding faultless_def diff_def by (auto split: outcome.splits)

lemma faultless_opt: "faultless p \<Longrightarrow> faultless (opt p)"
  unfolding faultless_def opt_def by (auto split: outcome.splits)

lemma faultless_and_pred: "faultless p \<Longrightarrow> faultless (and_pred p)"
  unfolding faultless_def and_pred_def by (auto split: outcome.splits)

lemma faultless_omit: "faultless p \<Longrightarrow> faultless (omit p)"
  unfolding faultless_def omit_def by (auto split: outcome.splits)

lemma advancing_and_pred: "advancing (and_pred p)"
  unfolding advancing_def and_pred_def by (auto split: outcome.splits)

lemma kleene_matches:
  "faultless p \<Longrightarrow> progress p \<Longrightarrow> \<exists>j a st'. kleene p buf lim i st = Match j a st'"
proof (induction p buf lim i st rule: kleene.induct)
  case (1 p buf lim first st)
  show ?case
  proof (cases "p buf lim first st")
    case (Match i b st1)
    from "1.prems"(2) [unfolded progress_def, rule_format, OF Match]
    have guard: "first < i \<and> i \<le> lim" .
    from "1.IH" [OF Match guard "1.prems"] Match guard show ?thesis
      by (subst kleene.simps) simp
  next
    case (NoMatch st1)
    then show ?thesis by (subst kleene.simps) simp
  next
    case (Fault x)
    with "1.prems"(1) show ?thesis by (simp add: faultless_def)
  qed
qed

lemma total_kleene: "faultless p \<Longrightarrow> progress p \<Longrightarrow> total (kleene p)"
  unfolding total_def using kleene_matches by fast

lemma total_seq: "total p \<Longrightarrow> total q \<Longrightarrow> total (seq p q)"
  unfolding total_def seq_def
proof (intro allI)
  fix buf lim i st
  assume p: "\<forall>buf lim i st. \<exists>j a st'. p buf lim i st = Match j a st'"
    and q: "\<forall>buf lim i st. \<exists>j a st'. q buf lim i st = Match j a st'"
  from p obtain j a st1 where 1: "p buf lim i st = Match j a st1" by blast
  from q obtain k b st2 where 2: "q buf lim j st1 = Match k b st2" by blast
  from 1 2 show "\<exists>j a st'. (case p buf lim i st of
        Match i a st1 \<Rightarrow>
          (case q buf lim i st1 of
             Match j b st2 \<Rightarrow> Match j (a, b) st2
           | NoMatch st2 \<Rightarrow> NoMatch st2
           | Fault f \<Rightarrow> Fault f)
      | NoMatch st1 \<Rightarrow> NoMatch st1
      | Fault f \<Rightarrow> Fault f) = Match j a st'" by simp
qed

lemma total_opt: "faultless p \<Longrightarrow> total (opt p)"
  unfolding total_def faultless_def opt_def
proof (intro allI)
  fix buf lim i st
  assume f: "\<forall>buf lim i st f. p buf lim i st \<noteq> Fault f"
  show "\<exists>j a st'. (case p buf lim i st of
        Match i a st1 \<Rightarrow> Match i (Some a) st1
      | NoMatch st1 \<Rightarrow> Match i None st1
      | Fault f \<Rightarrow> Fault f) = Match j a st'"
    using f by (cases "p buf lim i st") auto
qed

lemma total_raw: "total p \<Longrightarrow> total (raw p)"
  unfolding total_def raw_def
proof (intro allI)
  fix buf lim i st
  assume p: "\<forall>buf lim i st. \<exists>j a st'. p buf lim i st = Match j a st'"
  from p obtain j a st1 where 1: "p buf lim i st = Match j a st1" by blast
  then show "\<exists>j a st'. (case p buf lim i st of
        Match k a st1 \<Rightarrow> Match k \<lparr>sbegin = i, send = k\<rparr> st1
      | NoMatch st1 \<Rightarrow> NoMatch st1
      | Fault f \<Rightarrow> Fault f) = Match j a st'" by simp
qed

lemma total_attr_to: "total p \<Longrightarrow> total (attr_to g p)"
  unfolding total_def attr_to_def
proof (intro allI)
  fix buf lim i st
  assume p: "\<forall>buf lim i st. \<exists>j a st'. p buf lim i st = Match j a st'"
  from p obtain j a st1 where 1: "p buf lim i st = Match j a st1" by blast
  then show "\<exists>j a st'. (case p buf lim i st of
        Match i a st1 \<Rightarrow> Match i (g a) st1
      | NoMatch st1 \<Rightarrow> NoMatch st1
      | Fault f \<Rightarrow> Fault f) = Match j a st'" by simp
qed

lemma total_run: "total (kleene (diff char_any (char_lit c)))"
  by (intro total_kleene faultless_diff faultless_char_any faultless_char_lit
        progress_diff progress_char_any)

lemma total_rest: "total (kleene char_any)"
  by (intro total_kleene faultless_char_any progress_char_any)

lemma progress_directory_segment:
  "progress (seq (opt (lit_char c))
              (seq (kleene (diff char_any (char_lit c))) (and_pred (lit_char c))))"
  unfolding progress_def
proof (intro allI impI)
  fix buf lim i st j a st'
  assume m: "seq (opt (lit_char c))
              (seq (kleene (diff char_any (char_lit c))) (and_pred (lit_char c)))
              buf lim i st = Match j a st'"
  define C where "C = (i < lim \<and> i < length buf \<and> buf ! i = c)"
  define r where "r = (if C then i + 1 else i)"
  define e where "e = run_end (\<lambda>x. ischar x \<and> \<not> (ischar x \<and> x = c)) buf lim r"
  have s1: "opt (lit_char c) buf lim i st = Match r (if C then Some () else None) st"
    by (simp add: opt_def lit_char_def C_def r_def)
  have s2: "kleene (diff char_any (char_lit c)) buf lim r st = Match e () st"
    unfolding char_any_def char_lit_def diff_char_parser_eq kleene_char_parser e_def by simp
  have s3: "and_pred (lit_char c) buf lim e st =
      (if e < lim \<and> e < length buf \<and> buf ! e = c then Match e () st else NoMatch st)"
    by (simp add: and_pred_def lit_char_def)
  from m have j: "e < lim \<and> e < length buf \<and> buf ! e = c \<and> j = e"
    unfolding seq_def s1 outcome.case s2 s3 by (simp split: if_splits)
  have re: "r \<le> e"
    unfolding e_def using run_end_bounds by blast
  show "i < j \<and> j \<le> lim"
  proof (cases C)
    case True
    with re j show ?thesis by (simp add: r_def)
  next
    case False
    with j have "e \<noteq> i" unfolding C_def by blast
    with False re j show ?thesis by (simp add: r_def)
  qed
qed

lemma faultless_directory_segment:
  "faultless (seq (opt (lit_char c))
              (seq (kleene (diff char_any (char_lit c))) (and_pred (lit_char c))))"
  by (intro faultless_seq faultless_opt faultless_and_pred faultless_lit_char
        total_faultless [OF total_run])

lemma progress_extension_segment:
  "progress (seq (lit_char c)
              (seq (kleene (diff char_any (char_lit c))) (and_pred (lit_char c))))"
  by (intro progress_seq_left progress_lit_char advancing_seq advancing_kleene advancing_and_pred)

lemma faultless_extension_segment:
  "faultless (seq (lit_char c)
              (seq (kleene (diff char_any (char_lit c))) (and_pred (lit_char c))))"
  by (intro faultless_seq faultless_and_pred faultless_lit_char
        total_faultless [OF total_run])

lemma total_path_grammar: "total (path_grammar ds es)"
  unfolding path_grammar_def dirsep_def dirstr_def extsep_def extstr_def
  by (intro total_attr_to total_seq total_raw total_opt total_run total_rest
        total_kleene [OF faultless_directory_segment progress_directory_segment]
        total_kleene [OF faultless_extension_segment progress_extension_segment]
        faultless_omit faultless_lit_char faultless_seq
        total_faultless [OF total_raw [OF total_rest]])

lemma parse_path_returns: "\<exists>R rest. parse_path buf input ds es = (Inr R, rest)"
proof -
  from total_path_grammar [of ds es, unfolded total_def, rule_format,
      of buf "send input" "sbegin input" "()"]
  obtain j a and st' :: unit
    where "path_grammar ds es buf (send input) (sbegin input) () = Match j a st'"
    by blast
  then show ?thesis
    unfolding parse_path_def parse_direct_def by (cases a) simp
qed

subsection \<open>The first line and the headers of a request or response\<close>

lemma eol_match:
  "eol buf lim i st = Match j a st' \<Longrightarrow>
     0 < j \<and> j \<le> length buf \<and> (buf ! (j - 1) = CR \<or> buf ! (j - 1) = LF)"
  unfolding eol_def Let_def by (auto split: if_splits)

lemma eoi_match: "eoi buf lim i st = Match j a st' \<Longrightarrow> j = lim"
  unfolding eoi_def by (auto split: if_splits)

lemma ends_line_eol_eoi: "ends_line (omit (alt eol eoi))"
  unfolding ends_line_def omit_def alt_def
  by (auto split: outcome.splits dest: eol_match eoi_match)

lemma ends_line_seq: "ends_line q \<Longrightarrow> ends_line (seq p q)"
  unfolding ends_line_def seq_def by (fastforce split: outcome.splits)

lemma ends_line_attr_to: "ends_line p \<Longrightarrow> ends_line (attr_to g p)"
  unfolding ends_line_def attr_to_def by (fastforce split: outcome.splits)

lemma ends_line_request_line_grammar: "ends_line request_line_grammar"
  unfolding request_line_grammar_def
  by (intro ends_line_attr_to ends_line_seq ends_line_eol_eoi)

lemma ends_line_response_line_grammar: "ends_line response_line_grammar"
  unfolding response_line_grammar_def
  by (intro ends_line_attr_to ends_line_seq ends_line_eol_eoi)

lemma parse_direct_line:
  assumes g: "progress grammar" and l: "ends_line grammar"
    and r: "parse_direct name buf input grammar = (Inr rl, input1)"
  shows "sbegin input < sbegin input1 \<and> sbegin input1 \<le> send input
     \<and> send input1 = send input
     \<and> (sbegin input1 = send input
        \<or> (sbegin input1 \<le> length buf
           \<and> (buf ! (sbegin input1 - 1) = CR \<or> buf ! (sbegin input1 - 1) = LF)))"
proof (cases "grammar buf (send input) (sbegin input) ()")
  case (Match j a u)
  with r have i1: "input1 = \<lparr>sbegin = j, send = send input\<rparr>"
    by (simp add: parse_direct_def)
  from g [unfolded progress_def, rule_format, OF Match]
    l [unfolded ends_line_def, rule_format, OF Match]
  show ?thesis unfolding i1 by auto
next
  case (NoMatch u)
  with r show ?thesis by (simp add: parse_direct_def)
next
  case (Fault f)
  with r show ?thesis by (simp add: parse_direct_def)
qed

lemma parse_headers_success:
  assumes "parse_headers buf input1 = (Inr h, rest)"
  shows "sbegin input1 < sbegin rest \<and> sbegin rest \<le> send input1"
proof (cases "headers_grammar buf (send input1) (sbegin input1) headers_result_init")
  case (Match j a R)
  with assms have "rest = \<lparr>sbegin = j, send = send input1\<rparr>"
    by (simp add: parse_headers_def parse_indirect_def)
  with progress_headers_grammar [unfolded progress_def, rule_format, OF Match]
  show ?thesis by simp
next
  case (NoMatch R)
  with assms show ?thesis by (simp add: parse_headers_def parse_indirect_def)
next
  case (Fault f)
  with assms show ?thesis by (simp add: parse_headers_def parse_indirect_def)
qed

lemma parse_request_success:
  assumes "parse_request buf input = (Inr R, rest)"
  shows "\<exists>rl input1. parse_request_line buf input = (Inr rl, input1)
     \<and> parse_headers buf input1 = (Inr (request_headers R), rest)
     \<and> raw_request_line R = \<lparr>sbegin = sbegin input, send = sbegin input1 - 1\<rparr>"
  using assms unfolding parse_request_def Let_def
  by (auto split: prod.splits sum.splits if_splits)

lemma parse_response_success:
  assumes "parse_response buf input = (Inr R, rest)"
  shows "\<exists>sl input1. parse_response_line buf input = (Inr sl, input1)
     \<and> parse_headers buf input1 = (Inr (response_headers R), rest)
     \<and> raw_response_line R = \<lparr>sbegin = sbegin input, send = sbegin input1 - 1\<rparr>"
  using assms unfolding parse_response_def Let_def
  by (auto split: prod.splits sum.splits if_splits)

lemma span_text_append:
  assumes "b \<le> m" and "m \<le> q"
  shows "span_text buf \<lparr>sbegin = b, send = m\<rparr> @ span_text buf \<lparr>sbegin = m, send = q\<rparr>
     = span_text buf \<lparr>sbegin = b, send = q\<rparr>"
proof -
  from assms have "q - b = (m - b) + (q - m)" by simp
  then have "take (q - b) (drop b buf)
      = take (m - b) (drop b buf) @ take (q - m) (drop (m - b) (drop b buf))"
    by (simp only: take_add)
  with assms show ?thesis by (simp add: span_text_def)
qed

lemma span_text_single:
  assumes "0 < p" and "p \<le> length buf"
  shows "span_text buf \<lparr>sbegin = p - 1, send = p\<rparr> = [buf ! (p - 1)]"
proof -
  from assms have "p - 1 < length buf" by simp
  then have "drop (p - 1) buf = buf ! (p - 1) # drop (Suc (p - 1)) buf"
    by (rule Cons_nth_drop_Suc [symmetric])
  with assms show ?thesis by (simp add: span_text_def)
qed

lemma span_text_prefix:
  assumes "q \<le> e"
  shows "prefix (span_text buf \<lparr>sbegin = b, send = q\<rparr>) (span_text buf \<lparr>sbegin = b, send = e\<rparr>)"
proof -
  from assms have "take (q - b) (drop b buf) = take (q - b) (take (e - b) (drop b buf))"
    by (simp add: min_def)
  then show ?thesis
    unfolding span_text_def by (simp add: take_is_prefix del: take_take)
qed

lemma line_and_headers:
  assumes line: "sbegin input < p \<and> p \<le> send input
     \<and> (p = send input \<or> (p \<le> length buf \<and> (buf ! (p - 1) = CR \<or> buf ! (p - 1) = LF)))"
    and hdrs: "p < q \<and> q \<le> send input"
    and rawl: "rawl = \<lparr>sbegin = sbegin input, send = p - 1\<rparr>"
    and region: "region = \<lparr>sbegin = p, send = q\<rparr>"
    and rest: "sbegin rest = q"
  shows "span_text buf rawl @ span_text buf (between rawl region) @ span_text buf region
       = span_text buf (consumed input rest)
     \<and> prefix (span_text buf (consumed input rest)) (span_text buf input)
     \<and> span_text buf (between rawl region) \<noteq> []
     \<and> set (span_text buf (between rawl region)) \<subseteq> {CR, LF}"
proof -
  from line hdrs have p: "0 < p" "p \<le> length buf" "buf ! (p - 1) = CR \<or> buf ! (p - 1) = LF"
    by auto
  have b: "between rawl region = \<lparr>sbegin = p - 1, send = p\<rparr>"
    by (simp add: between_def rawl region)
  have gap: "span_text buf (between rawl region) = [buf ! (p - 1)]"
    unfolding b by (rule span_text_single [OF p(1,2)])
  have c: "consumed input rest = \<lparr>sbegin = sbegin input, send = q\<rparr>"
    by (simp add: consumed_def rest)
  have i: "input = \<lparr>sbegin = sbegin input, send = send input\<rparr>" by simp
  have 1: "span_text buf rawl @ span_text buf (between rawl region)
         = span_text buf \<lparr>sbegin = sbegin input, send = p\<rparr>"
  proof -
    have "span_text buf \<lparr>sbegin = sbegin input, send = p - 1\<rparr>
          @ span_text buf \<lparr>sbegin = p - 1, send = p\<rparr>
        = span_text buf \<lparr>sbegin = sbegin input, send = p\<rparr>"
      using line p by (intro span_text_append) auto
    then show ?thesis unfolding b unfolding rawl .
  qed
  have 2: "span_text buf \<lparr>sbegin = sbegin input, send = p\<rparr> @ span_text buf region
         = span_text buf \<lparr>sbegin = sbegin input, send = q\<rparr>"
    unfolding region using line hdrs by (intro span_text_append) auto
  have 3: "prefix (span_text buf (consumed input rest)) (span_text buf input)"
    unfolding c by (subst (2) i) (rule span_text_prefix, use hdrs in simp)
  from 1 2 have "span_text buf rawl @ span_text buf (between rawl region) @ span_text buf region
       = span_text buf (consumed input rest)"
    unfolding c by (metis append.assoc)
  with 3 gap p(3) show ?thesis by auto
qed

lemma starts_with_char_parser:
  assumes "\<And>c. P c \<Longrightarrow> Q c"
  shows "starts_with Q (char_parser P)"
  unfolding starts_with_def char_parser_def using assms by (auto split: if_splits)

lemma starts_with_seq: "starts_with Q p \<Longrightarrow> starts_with Q (seq p q)"
  unfolding starts_with_def seq_def by (fastforce split: outcome.splits)

lemma starts_with_alt: "starts_with Q p \<Longrightarrow> starts_with Q q \<Longrightarrow> starts_with Q (alt p q)"
  unfolding starts_with_def alt_def by (fastforce split: outcome.splits)

lemma starts_with_plus: "starts_with Q p \<Longrightarrow> starts_with Q (plus p)"
  unfolding starts_with_def plus_def by (fastforce split: outcome.splits)

lemma starts_with_action: "starts_with Q p \<Longrightarrow> starts_with Q (action p f)"
  unfolding starts_with_def action_def by (fastforce split: outcome.splits sum.splits)

lemma run_end_moved:
  assumes "run_end P buf lim i \<noteq> i"
  shows "i < lim \<and> i < length buf \<and> P (buf ! i)"
proof (rule ccontr)
  assume "\<not> (i < lim \<and> i < length buf \<and> P (buf ! i))"
  then have "run_end P buf lim i = i" by (subst run_end.simps) auto
  with assms show False by simp
qed

lemma key_char_not_eol:
  "ischar c \<and> \<not> (ischar c \<and> in_chset [CHR '' '', TAB, CHR '':'', CR, LF] c) \<Longrightarrow> not_eol_byte c"
  by (auto simp: not_eol_byte_def in_chset_def CR_def LF_def TAB_def)

lemma blank_not_eol:
  "ischar c \<and> in_chset [CHR '' '', TAB] c \<Longrightarrow> not_eol_byte c"
  by (auto simp: not_eol_byte_def in_chset_def CR_def LF_def TAB_def)

lemma starts_with_headers_key: "starts_with not_eol_byte headers_key"
  unfolding starts_with_def
proof (intro allI impI)
  fix buf lim i and st :: 'a and j a st'
  let ?P = "\<lambda>c. ischar c \<and> \<not> (ischar c \<and> in_chset [CHR '' '', TAB, CHR '':'', CR, LF] c)"
  define u where "u = run_end ?P buf lim i"
  assume m: "headers_key buf lim i st = Match j a st'"
  have k: "raw (kleene (diff char_any (char_set [CHR '' '', TAB, CHR '':'', CR, LF]))) buf lim i st
      = Match u \<lparr>sbegin = i, send = u\<rparr> st"
    unfolding char_any_def char_set_def diff_char_parser_eq raw_def kleene_char_parser u_def
    by simp
  from m have c: "u < lim \<and> u < length buf \<and> buf ! u = CHR '':''"
    unfolding headers_key_def attr_to_def seq_def k omit_def lit_single
    by (simp split: if_splits)
  show "i < lim \<and> i < length buf \<and> not_eol_byte (buf ! i)"
  proof (cases "u = i")
    case True
    with c show ?thesis by (simp add: not_eol_byte_def CR_def LF_def)
  next
    case False
    then have "i < lim \<and> i < length buf \<and> ?P (buf ! i)"
      unfolding u_def by (rule run_end_moved)
    with key_char_not_eol [of "buf ! i"] show ?thesis by blast
  qed
qed

lemma starts_with_headers_header: "starts_with not_eol_byte headers_header"
  unfolding headers_header_def
  apply (rule starts_with_alt)
   apply (rule starts_with_seq)
   apply (rule starts_with_action)
   apply (rule starts_with_headers_key)
  apply (rule starts_with_seq)
  apply (rule starts_with_plus)
  unfolding char_set_def
  apply (rule starts_with_char_parser)
  apply (erule blank_not_eol)
  done

lemma starts_with_headers_grammar: "starts_with not_eol_byte headers_grammar"
  unfolding headers_grammar_def
  by (intro starts_with_seq starts_with_plus starts_with_headers_header)

lemma parse_headers_first_byte:
  assumes "parse_headers buf input1 = (Inr h, rest)"
  shows "sbegin input1 < length buf \<and> not_eol_byte (buf ! sbegin input1)"
proof (cases "headers_grammar buf (send input1) (sbegin input1) headers_result_init")
  case (Match j a R)
  from starts_with_headers_grammar [unfolded starts_with_def, rule_format, OF Match]
  show ?thesis by simp
next
  case (NoMatch R)
  with assms show ?thesis by (simp add: parse_headers_def parse_indirect_def)
next
  case (Fault f)
  with assms show ?thesis by (simp add: parse_headers_def parse_indirect_def)
qed

lemma line_and_headers_no_prefix:
  assumes line: "sbegin input < p \<and> p \<le> send input
     \<and> (p = send input \<or> (p \<le> length buf \<and> (buf ! (p - 1) = CR \<or> buf ! (p - 1) = LF)))"
    and hdrs: "p < q \<and> q \<le> send input"
    and first: "p < length buf \<and> not_eol_byte (buf ! p)"
    and rawl: "rawl = \<lparr>sbegin = sbegin input, send = p - 1\<rparr>"
    and region: "region = \<lparr>sbegin = p, send = q\<rparr>"
  shows "\<not> prefix (span_text buf rawl @ span_text buf region) (span_text buf input)"
proof
  let ?b = "sbegin input"
  let ?n = "p - 1 - ?b"
  assume pre: "prefix (span_text buf rawl @ span_text buf region) (span_text buf input)"
  from line hdrs first have eol: "buf ! (p - 1) = CR \<or> buf ! (p - 1) = LF" by auto
  from line first have len: "length (span_text buf rawl) = ?n"
    by (auto simp: span_text_def rawl min_def)
  from hdrs first have "drop p buf = buf ! p # drop (Suc p) buf"
    by (simp add: Cons_nth_drop_Suc)
  with hdrs have reg: "span_text buf region = buf ! p # take (q - p - 1) (drop (Suc p) buf)"
    by (cases "q - p") (simp_all add: span_text_def region)
  from len reg have 1: "(span_text buf rawl @ span_text buf region) ! ?n = buf ! p"
    by (simp add: nth_append)
  from line hdrs first have 2: "span_text buf input ! ?n = buf ! (p - 1)"
    by (auto simp: span_text_def)
  from len reg have 3: "?n < length (span_text buf rawl @ span_text buf region)" by simp
  from pre obtain zs where "span_text buf input = (span_text buf rawl @ span_text buf region) @ zs"
    by (auto simp: prefix_def)
  with 3 have "span_text buf input ! ?n = (span_text buf rawl @ span_text buf region) ! ?n"
    by (simp only: nth_append) simp
  with 1 2 have "buf ! p = buf ! (p - 1)" by simp
  with eol first show False by (auto simp: not_eol_byte_def)
qed

lemma span_text_member:
  assumes "b \<le> k" and "k < e" and "k < length buf"
  shows "buf ! k \<in> set (span_text buf \<lparr>sbegin = b, send = e\<rparr>)"
proof -
  let ?xs = "take (e - b) (drop b buf)"
  from assms have l: "k - b < length ?xs" by (simp add: less_diff_conv2)
  from assms have "?xs ! (k - b) = buf ! k" by simp
  with nth_mem [OF l] show ?thesis by (simp add: span_text_def)
qed

lemma parse_authority_by_rule:
  "\<exists>R rest. parse_authority buf input = (Inr R, rest)
     \<and> (if userinfo_applies buf input
         then username R = \<lparr>sbegin = sbegin input, send = word_end buf input (sbegin input)\<rparr>
            \<and> password R =
                (if byte_is buf input (word_end buf input (sbegin input)) (CHR '':'')
                 then \<lparr>sbegin = word_end buf input (sbegin input) + 1,
                       send = userinfo_end buf input\<rparr>
                 else span_default)
            \<and> host R = \<lparr>sbegin = userinfo_end buf input + 1,
                         send = word_end buf input (userinfo_end buf input + 1)\<rparr>
         else username R = span_default \<and> password R = span_default
            \<and> host R = \<lparr>sbegin = sbegin input, send = word_end buf input (sbegin input)\<rparr>)
     \<and> port R =
         (if byte_is buf input (send (host R)) (CHR '':'')
          then \<lparr>sbegin = send (host R) + 1, send = word_end buf input (send (host R) + 1)\<rparr>
          else span_default)
     \<and> rest = \<lparr>sbegin = (if byte_is buf input (send (host R)) (CHR '':'')
                          then send (port R) else send (host R)),
                send = send input\<rparr>"
proof -
  define lim i where "lim = send input" and "i = sbegin input"
  define u where "u = run_end authority_char buf lim i"
  define colon where "colon = (u < lim \<and> u < length buf \<and> buf ! u = CHR '':'')"
  define p where "p = run_end authority_char buf lim (u + 1)"
  define q where "q = (if colon then p else u)"
  define at where "at = (q < lim \<and> q < length buf \<and> buf ! q = CHR ''@'')"
  define h where "h = run_end authority_char buf lim (q + 1)"
  define m where "m = (if at then h else u)"
  define pc where "pc = (m < lim \<and> m < length buf \<and> buf ! m = CHR '':'')"
  define e where "e = run_end authority_char buf lim (m + 1)"
  from authority_grammar_closed [OF u_def colon_def p_def q_def at_def h_def m_def pc_def e_def]
  obtain a where g: "authority_grammar buf lim i authority_result_init =
     Match (if pc then e else m) a
       \<lparr>username = (if at then \<lparr>sbegin = i, send = u\<rparr> else span_default),
        password = (if at \<and> colon then \<lparr>sbegin = u + 1, send = p\<rparr> else span_default),
        host = (if at then \<lparr>sbegin = q + 1, send = h\<rparr> else \<lparr>sbegin = i, send = u\<rparr>),
        port = (if pc then \<lparr>sbegin = m + 1, send = e\<rparr> else span_default)\<rparr>"
    by blast
  have w: "word_end buf input (sbegin input) = u"
    by (simp add: word_end_def u_def lim_def i_def)
  have c: "byte_is buf input u (CHR '':'') = colon"
    by (simp add: byte_is_def colon_def lim_def)
  have ue: "userinfo_end buf input = q"
    unfolding userinfo_end_def Let_def w c
    by (simp add: q_def p_def word_end_def lim_def)
  have ua: "userinfo_applies buf input = at"
    by (simp add: userinfo_applies_def ue byte_is_def at_def lim_def)
  have wh: "word_end buf input (Suc q) = h"
    by (simp add: word_end_def h_def lim_def)
  have bm: "byte_is buf input m (CHR '':'') = pc"
    by (simp add: byte_is_def pc_def lim_def)
  have we: "word_end buf input (Suc m) = e"
    by (simp add: word_end_def e_def lim_def)
  have pq: "colon \<Longrightarrow> p = q" by (simp add: q_def)
  show ?thesis
  proof (cases at)
    case True
    then have mh: "m = h" by (simp add: m_def)
    have bh: "byte_is buf input h (CHR '':'') = pc" using bm by (simp add: mh)
    have eh: "word_end buf input (Suc h) = e" using we by (simp add: mh)
    from True have r: "parse_authority buf input =
        (Inr \<lparr>username = \<lparr>sbegin = i, send = u\<rparr>,
              password = (if colon then \<lparr>sbegin = u + 1, send = q\<rparr> else span_default),
              host = \<lparr>sbegin = q + 1, send = h\<rparr>,
              port = (if pc then \<lparr>sbegin = h + 1, send = e\<rparr> else span_default)\<rparr>,
         \<lparr>sbegin = (if pc then e else h), send = lim\<rparr>)"
      unfolding parse_authority_def parse_indirect_def lim_def [symmetric] i_def [symmetric] g
      by (simp add: mh pq)
    from True show ?thesis
      unfolding r ua w c ue by (simp add: wh bh eh i_def lim_def)
  next
    case False
    then have mu: "m = u" by (simp add: m_def)
    have bu: "byte_is buf input u (CHR '':'') = pc" using bm by (simp add: mu)
    have eu: "word_end buf input (Suc u) = e" using we by (simp add: mu)
    from False have r: "parse_authority buf input =
        (Inr \<lparr>username = span_default, password = span_default,
              host = \<lparr>sbegin = i, send = u\<rparr>,
              port = (if pc then \<lparr>sbegin = u + 1, send = e\<rparr> else span_default)\<rparr>,
         \<lparr>sbegin = (if pc then e else u), send = lim\<rparr>)"
      unfolding parse_authority_def parse_indirect_def lim_def [symmetric] i_def [symmetric] g
      by (simp add: mu)
    from False show ?thesis
      unfolding r ua w by (simp add: bu eu i_def lim_def)
  qed
qed

lemma userinfo_needs_at_sign:
  assumes "CHR ''@'' \<notin> set (span_text buf input)"
  shows "\<not> userinfo_applies buf input"
proof
  assume "userinfo_applies buf input"
  then have q: "userinfo_end buf input < send input" "userinfo_end buf input < length buf"
    "buf ! userinfo_end buf input = CHR ''@''"
    by (simp_all add: userinfo_applies_def byte_is_def)
  have 1: "\<And>k. k \<le> word_end buf input k"
    unfolding word_end_def using run_end_bounds by blast
  have "sbegin input \<le> userinfo_end buf input"
    unfolding userinfo_end_def Let_def
    using 1 [of "sbegin input"] 1 [of "word_end buf input (sbegin input) + 1"] by auto
  from span_text_member [OF this q(1,2)] q(3) have "CHR ''@'' \<in> set (span_text buf input)"
    by (simp add: span_text_def)
  with assms show False by simp
qed

section \<open>The examples, evaluated\<close>

lemma folded_headers_run:
  "parse_headers folded_headers (span_of folded_headers) =
     (Inr \<lparr>headers = [\<lparr>key = \<lparr>sbegin = 0, send = 1\<rparr>,
                        hvalue = [\<lparr>sbegin = 3, send = 4\<rparr>, \<lparr>sbegin = 7, send = 11\<rparr>]\<rparr>],
           terminated = True\<rparr>,
      \<lparr>sbegin = 15, send = 15\<rparr>)"
  by code_simp

lemma dangling_headers_run:
  "parse_headers dangling_headers (span_of dangling_headers) =
     (Inr \<lparr>headers = [\<lparr>key = \<lparr>sbegin = 0, send = 1\<rparr>, hvalue = [\<lparr>sbegin = 2, send = 3\<rparr>]\<rparr>,
                       \<lparr>key = \<lparr>sbegin = 4, send = 5\<rparr>, hvalue = []\<rparr>],
           terminated = False\<rparr>,
      \<lparr>sbegin = 4, send = 6\<rparr>)"
  by code_simp

lemma continuation_first_run:
  "parse_headers continuation_first (span_of continuation_first) =
     (Inl (Faulted BackOfEmptyList), span_of continuation_first)"
  by code_simp

lemma crlf_request_run:
  "map_option raw_request_line (result_of (parse_request crlf_request (span_of crlf_request)))
     = Some \<lparr>sbegin = 0, send = 15\<rparr>"
  by code_simp

lemma crlf_response_run:
  "map_option raw_response_line (result_of (parse_response crlf_response (span_of crlf_response)))
     = Some \<lparr>sbegin = 0, send = 16\<rparr>"
  by code_simp

lemma archive_path_run:
  "parse_path archive_path (span_of archive_path) (CHR ''/'') (CHR ''.'') =
     (Inr \<lparr>directory = \<lparr>sbegin = 0, send = 4\<rparr>, file_span = \<lparr>sbegin = 5, send = 19\<rparr>,
           base = \<lparr>sbegin = 5, send = 16\<rparr>, extension = \<lparr>sbegin = 17, send = 19\<rparr>,
           directory_separator = CHR ''/'', extension_separator = CHR ''.''\<rparr>,
      \<lparr>sbegin = 19, send = 19\<rparr>)"
  by code_simp

lemma colon_password_run:
  "parse_authority colon_password (span_of colon_password) =
     (Inr \<lparr>username = \<lparr>sbegin = 0, send = 0\<rparr>, password = \<lparr>sbegin = 1, send = 2\<rparr>,
           host = \<lparr>sbegin = 3, send = 4\<rparr>, port = \<lparr>sbegin = 0, send = 0\<rparr>\<rparr>,
      \<lparr>sbegin = 4, send = 4\<rparr>)"
  by code_simp

lemma no_headers_run:
  "fst (parse_headers no_headers (span_of no_headers))
     = Inl (ParseFailure ''Incomplete headers.'' (Some 0))"
  by code_simp

lemma short_request_line_run:
  "fst (parse_request_line short_request_line (span_of short_request_line))
     = Inl (ParseFailure ''Incomplete request line.'' (Some 0))"
  by code_simp

lemma short_response_line_run:
  "fst (parse_response_line short_response_line (span_of short_response_line))
     = Inl (ParseFailure ''Incomplete response line.'' (Some 0))"
  by code_simp

lemma spaced_uri_run:
  "fst (parse_uri spaced_uri (span_of spaced_uri))
     = Inl (ParseFailure ''Incomplete URI.'' (Some 0))"
  by code_simp

lemma lf_request_run:
  "map_option raw_request_line (result_of (parse_request lf_request (span_of lf_request)))
     = Some \<lparr>sbegin = 0, send = 14\<rparr>
   \<and> snd (parse_request lf_request (span_of lf_request)) = \<lparr>sbegin = 20, send = 20\<rparr>
   \<and> snd (parse_request_line lf_request (span_of lf_request)) = \<lparr>sbegin = 15, send = 20\<rparr>"
  by code_simp

lemma lf_response_run:
  "map_option raw_response_line (result_of (parse_response lf_response (span_of lf_response)))
     = Some \<lparr>sbegin = 0, send = 15\<rparr>
   \<and> snd (parse_response lf_response (span_of lf_response)) = \<lparr>sbegin = 21, send = 21\<rparr>
   \<and> snd (parse_response_line lf_response (span_of lf_response)) = \<lparr>sbegin = 16, send = 21\<rparr>"
  by code_simp

lemma result_of_Some: "result_of r = Some R \<longleftrightarrow> r = (Inr R, snd r)"
  unfolding result_of_def by (cases r) (auto split: sum.splits)

lemma two_colons_authority_run:
  "map_option (authority_text two_colons_authority)
     (result_of (parse_authority two_colons_authority (span_of two_colons_authority)))
   = Some [[], [], ''a'', ''b'']"
  by code_simp

lemma authority_examples_run:
  "map_option (authority_text userinfo_authority)
     (result_of (parse_authority userinfo_authority (span_of userinfo_authority)))
     = Some [''user'', ''pass'', ''host'', ''80'']
   \<and> map_option (authority_text host_port_authority)
     (result_of (parse_authority host_port_authority (span_of host_port_authority)))
     = Some [[], [], ''host'', ''80'']"
  by code_simp

lemma host_port_word_end:
  "word_end host_port_authority (span_of host_port_authority) 0 = 4"
  by code_simp

section \<open>The claims\<close>

text \<open>
  C1. The specification says that every entry of a header block that \<open>parse_headers\<close>
  returns has at least one value. The source opens the entry as soon as the key and its
  colon have matched, and does not take it back when the rest of the line fails: on
  \<open>A:1\<close>, a line feed and \<open>B:\<close>, the call succeeds, leaves \<open>B:\<close> unconsumed, and returns
  the entry \<open>B\<close> with no value.
\<close>

theorem parse_headers_entry_without_value:
  "\<exists>R rest. parse_headers dangling_headers (span_of dangling_headers) = (Inr R, rest)
     \<and> headers_text dangling_headers R = [(''A'', [''1'']), (''B'', [])]
     \<and> span_text dangling_headers rest = ''B:''"
  unfolding dangling_headers_run
  by (simp add: headers_text_def span_text_def dangling_headers_def LF_def)

text \<open>
  C2, as the source has it. On \<open>/a/b/archive.tar.gz\<close> with the separators \<open>/\<close> and \<open>.\<close>,
  \<open>parse_path\<close> succeeds with the directory \<open>/a/b\<close>, the base \<open>archive.tar\<close>, the extension
  \<open>gz\<close> and the file \<open>archive.tar.gz\<close>: the last directory separator is consumed by the
  omitted component that follows the directory, and belongs to no span.
\<close>

theorem parse_path_archive:
  "map_option (path_text archive_path)
     (result_of (parse_path archive_path (span_of archive_path) (CHR ''/'') (CHR ''.'')))
   = Some [''/a/b'', ''archive.tar'', ''gz'', ''archive.tar.gz'']"
  unfolding archive_path_run
  by (simp add: result_of_def path_text_def span_text_def archive_path_def)

text \<open>
  C2, as the specification states it, with the directory \<open>/a/b/\<close> up to and including
  the last separator: this is not what \<open>parse_path\<close> returns.
\<close>

theorem parse_path_archive_directory_counterexample:
  "map_option (path_text archive_path)
     (result_of (parse_path archive_path (span_of archive_path) (CHR ''/'') (CHR ''.'')))
   \<noteq> Some [''/a/b/'', ''archive.tar'', ''gz'', ''archive.tar.gz'']"
  unfolding archive_path_run
  by (simp add: result_of_def path_text_def span_text_def archive_path_def)

text \<open>
  C3. The specification says that the raw line is the first line without its terminator,
  whatever the terminator. The source ends the raw line one byte before the position that the line
  parse reached, so a line that ends in CR LF keeps its CR, in a request and in a response.
\<close>

theorem raw_line_keeps_carriage_return:
  "map_option (span_text crlf_request \<circ> raw_request_line)
     (result_of (parse_request crlf_request (span_of crlf_request)))
     = Some (''GET / HTTP/1.1'' @ [CR])
   \<and> map_option (span_text crlf_response \<circ> raw_response_line)
     (result_of (parse_response crlf_response (span_of crlf_response)))
     = Some (''HTTP/1.1 200 OK'' @ [CR])"
  using crlf_request_run crlf_response_run
  by (auto simp: span_text_def crlf_request_def crlf_response_def)

text \<open>
  C4, as the source has it. When \<open>parse_request\<close> (respectively \<open>parse_response\<close>)
  succeeds, the raw line, the bytes between the raw line and the region of the headers,
  and the region of the headers make up the consumed prefix of the input, byte for byte.
  The bytes in between are not empty and belong to the line terminator (CR or LF). The
  raw line followed by the region of the headers is never a prefix of the input: where the
  input has the first byte left out, a CR or an LF, the concatenation has the first byte of
  the headers, which is neither.
\<close>

theorem raw_line_terminator_headers_rebuild_prefix:
  "(parse_request buf input = (Inr R, rest) \<longrightarrow>
      span_text buf (raw_request_line R)
        @ span_text buf (between (raw_request_line R) (request_headers_region buf input))
        @ span_text buf (request_headers_region buf input)
        = span_text buf (consumed input rest)
      \<and> prefix (span_text buf (consumed input rest)) (span_text buf input)
      \<and> span_text buf (between (raw_request_line R) (request_headers_region buf input)) \<noteq> []
      \<and> set (span_text buf (between (raw_request_line R) (request_headers_region buf input)))
          \<subseteq> {CR, LF}
      \<and> \<not> prefix (span_text buf (raw_request_line R)
                    @ span_text buf (request_headers_region buf input))
            (span_text buf input))
   \<and> (parse_response buf input = (Inr S, rest') \<longrightarrow>
      span_text buf (raw_response_line S)
        @ span_text buf (between (raw_response_line S) (response_headers_region buf input))
        @ span_text buf (response_headers_region buf input)
        = span_text buf (consumed input rest')
      \<and> prefix (span_text buf (consumed input rest')) (span_text buf input)
      \<and> span_text buf (between (raw_response_line S) (response_headers_region buf input)) \<noteq> []
      \<and> set (span_text buf (between (raw_response_line S) (response_headers_region buf input)))
          \<subseteq> {CR, LF}
      \<and> \<not> prefix (span_text buf (raw_response_line S)
                    @ span_text buf (response_headers_region buf input))
            (span_text buf input))"
proof (intro conjI impI)
  assume r: "parse_request buf input = (Inr R, rest)"
  from parse_request_success [OF r] obtain rl input1 where
    l: "parse_request_line buf input = (Inr rl, input1)"
    and h: "parse_headers buf input1 = (Inr (request_headers R), rest)"
    and rawl: "raw_request_line R = \<lparr>sbegin = sbegin input, send = sbegin input1 - 1\<rparr>"
    by blast
  note line = parse_direct_line [OF progress_request_line_grammar ends_line_request_line_grammar
      l [unfolded parse_request_line_def]]
  note hdrs = parse_headers_success [OF h]
  have region: "request_headers_region buf input = \<lparr>sbegin = sbegin input1, send = sbegin rest\<rparr>"
    by (simp add: request_headers_region_def consumed_def l r)
  note all = line_and_headers [of input "sbegin input1" buf "sbegin rest"
      "raw_request_line R" "request_headers_region buf input" rest, OF _ _ rawl region refl]
  have a: "span_text buf (raw_request_line R)
        @ span_text buf (between (raw_request_line R) (request_headers_region buf input))
        @ span_text buf (request_headers_region buf input)
        = span_text buf (consumed input rest)
      \<and> prefix (span_text buf (consumed input rest)) (span_text buf input)
      \<and> span_text buf (between (raw_request_line R) (request_headers_region buf input)) \<noteq> []
      \<and> set (span_text buf (between (raw_request_line R) (request_headers_region buf input)))
          \<subseteq> {CR, LF}"
    using line hdrs by (intro all) auto
  from a show "span_text buf (raw_request_line R)
        @ span_text buf (between (raw_request_line R) (request_headers_region buf input))
        @ span_text buf (request_headers_region buf input)
        = span_text buf (consumed input rest)" by blast
  from a show "prefix (span_text buf (consumed input rest)) (span_text buf input)" by blast
  from a show "span_text buf (between (raw_request_line R) (request_headers_region buf input)) \<noteq> []"
    by blast
  from a show "set (span_text buf (between (raw_request_line R) (request_headers_region buf input)))
          \<subseteq> {CR, LF}" by blast
  from line hdrs parse_headers_first_byte [OF h]
  show "\<not> prefix (span_text buf (raw_request_line R)
                    @ span_text buf (request_headers_region buf input))
            (span_text buf input)"
    by (intro line_and_headers_no_prefix [of input "sbegin input1" buf "sbegin rest",
          OF _ _ _ rawl region]) auto
next
  assume r: "parse_response buf input = (Inr S, rest')"
  from parse_response_success [OF r] obtain sl input1 where
    l: "parse_response_line buf input = (Inr sl, input1)"
    and h: "parse_headers buf input1 = (Inr (response_headers S), rest')"
    and rawl: "raw_response_line S = \<lparr>sbegin = sbegin input, send = sbegin input1 - 1\<rparr>"
    by blast
  note line = parse_direct_line [OF progress_response_line_grammar ends_line_response_line_grammar
      l [unfolded parse_response_line_def]]
  note hdrs = parse_headers_success [OF h]
  have region: "response_headers_region buf input = \<lparr>sbegin = sbegin input1, send = sbegin rest'\<rparr>"
    by (simp add: response_headers_region_def consumed_def l r)
  note all = line_and_headers [of input "sbegin input1" buf "sbegin rest'"
      "raw_response_line S" "response_headers_region buf input" rest', OF _ _ rawl region refl]
  have a: "span_text buf (raw_response_line S)
        @ span_text buf (between (raw_response_line S) (response_headers_region buf input))
        @ span_text buf (response_headers_region buf input)
        = span_text buf (consumed input rest')
      \<and> prefix (span_text buf (consumed input rest')) (span_text buf input)
      \<and> span_text buf (between (raw_response_line S) (response_headers_region buf input)) \<noteq> []
      \<and> set (span_text buf (between (raw_response_line S) (response_headers_region buf input)))
          \<subseteq> {CR, LF}"
    using line hdrs by (intro all) auto
  from a show "span_text buf (raw_response_line S)
        @ span_text buf (between (raw_response_line S) (response_headers_region buf input))
        @ span_text buf (response_headers_region buf input)
        = span_text buf (consumed input rest')" by blast
  from a show "prefix (span_text buf (consumed input rest')) (span_text buf input)" by blast
  from a show "span_text buf (between (raw_response_line S) (response_headers_region buf input)) \<noteq> []"
    by blast
  from a show "set (span_text buf (between (raw_response_line S) (response_headers_region buf input)))
          \<subseteq> {CR, LF}" by blast
  from line hdrs parse_headers_first_byte [OF h]
  show "\<not> prefix (span_text buf (raw_response_line S)
                    @ span_text buf (response_headers_region buf input))
            (span_text buf input)"
    by (intro line_and_headers_no_prefix [of input "sbegin input1" buf "sbegin rest'",
          OF _ _ _ rawl region]) auto
qed

theorem raw_line_terminator_headers_rebuild_prefix_witness:
  "(\<exists>R rest. parse_request lf_request (span_of lf_request) = (Inr R, rest)
      \<and> span_text lf_request (raw_request_line R)
        @ span_text lf_request
            (between (raw_request_line R) (request_headers_region lf_request (span_of lf_request)))
        @ span_text lf_request (request_headers_region lf_request (span_of lf_request))
        = lf_request)
   \<and> (\<exists>S rest. parse_response lf_response (span_of lf_response) = (Inr S, rest)
      \<and> span_text lf_response (raw_response_line S)
        @ span_text lf_response
            (between (raw_response_line S) (response_headers_region lf_response (span_of lf_response)))
        @ span_text lf_response (response_headers_region lf_response (span_of lf_response))
        = lf_response)"
proof -
  from lf_request_run obtain R where
    R: "parse_request lf_request (span_of lf_request) = (Inr R, \<lparr>sbegin = 20, send = 20\<rparr>)"
    by (auto simp: result_of_Some)
  have c: "span_text lf_request (consumed (span_of lf_request) \<lparr>sbegin = 20, send = 20\<rparr>)
      = lf_request"
    by (simp add: consumed_def span_of_def span_text_def lf_request_def)
  note t1 = raw_line_terminator_headers_rebuild_prefix
      [of lf_request "span_of lf_request" R "\<lparr>sbegin = 20, send = 20\<rparr>",
       THEN conjunct1, rule_format, OF R, THEN conjunct1]
  from lf_response_run obtain S where
    S: "parse_response lf_response (span_of lf_response) = (Inr S, \<lparr>sbegin = 21, send = 21\<rparr>)"
    by (auto simp: result_of_Some)
  have d: "span_text lf_response (consumed (span_of lf_response) \<lparr>sbegin = 21, send = 21\<rparr>)
      = lf_response"
    by (simp add: consumed_def span_of_def span_text_def lf_response_def)
  note t2 = raw_line_terminator_headers_rebuild_prefix
      [of lf_response "span_of lf_response" _ _ S "\<lparr>sbegin = 21, send = 21\<rparr>",
       THEN conjunct2, rule_format, OF S, THEN conjunct1]
  from R S t1 [unfolded c] t2 [unfolded d] show ?thesis by blast
qed

text \<open>
  C4, as the specification states it: the raw line followed by the region of the headers is a
  prefix of the input. On a request and on a response whose lines end in LF, the
  concatenation lacks the LF of the first line and is no prefix of the input.
\<close>

theorem raw_line_and_headers_counterexample:
  "request_raw_line_and_headers lf_request (span_of lf_request)
     = Some (''GET / HTTP/1.1A: 1'' @ [LF])
   \<and> \<not> prefix (''GET / HTTP/1.1A: 1'' @ [LF]) lf_request
   \<and> response_raw_line_and_headers lf_response (span_of lf_response)
     = Some (''HTTP/1.1 200 OKA: 1'' @ [LF])
   \<and> \<not> prefix (''HTTP/1.1 200 OKA: 1'' @ [LF]) lf_response"
proof -
  from lf_request_run obtain R where
    "result_of (parse_request lf_request (span_of lf_request)) = Some R"
    and "raw_request_line R = \<lparr>sbegin = 0, send = 14\<rparr>" by auto
  then have 1: "request_raw_line_and_headers lf_request (span_of lf_request)
     = Some (''GET / HTTP/1.1A: 1'' @ [LF])"
    using lf_request_run
    by (simp add: request_raw_line_and_headers_def request_headers_region_def consumed_def
        span_text_def lf_request_def)
  from lf_response_run obtain S where
    "result_of (parse_response lf_response (span_of lf_response)) = Some S"
    and "raw_response_line S = \<lparr>sbegin = 0, send = 15\<rparr>" by auto
  then have 2: "response_raw_line_and_headers lf_response (span_of lf_response)
     = Some (''HTTP/1.1 200 OKA: 1'' @ [LF])"
    using lf_response_run
    by (simp add: response_raw_line_and_headers_def response_headers_region_def consumed_def
        span_text_def lf_response_def)
  have 3: "\<not> prefix (''GET / HTTP/1.1A: 1'' @ [LF]) lf_request"
    by (simp add: lf_request_def LF_def)
  have 4: "\<not> prefix (''HTTP/1.1 200 OKA: 1'' @ [LF]) lf_response"
    by (simp add: lf_response_def LF_def)
  from 1 2 3 4 show ?thesis by blast
qed

text \<open>
  C5, as the source has it. When the password of the result is not empty, the userinfo
  branch has matched, and the input reads: the username (which may be empty) from the
  start of the input, a colon, the password, an at sign, the host.
\<close>

theorem password_only_after_userinfo:
  assumes "parse_authority buf input = (Inr R, rest)"
    and "\<not> span_empty (password R)"
  shows "(\<exists>j a R'. authority_userinfo buf (send input) (sbegin input) authority_result_init
            = Match j a R')
     \<and> sbegin (username R) = sbegin input
     \<and> buf ! send (username R) = CHR '':''
     \<and> sbegin (password R) = send (username R) + 1
     \<and> buf ! send (password R) = CHR ''@''
     \<and> sbegin (host R) = send (password R) + 1"
proof -
  define lim i where "lim = send input" and "i = sbegin input"
  define u where "u = run_end authority_char buf lim i"
  define colon where "colon = (u < lim \<and> u < length buf \<and> buf ! u = CHR '':'')"
  define p where "p = run_end authority_char buf lim (u + 1)"
  define q where "q = (if colon then p else u)"
  define at where "at = (q < lim \<and> q < length buf \<and> buf ! q = CHR ''@'')"
  define h where "h = run_end authority_char buf lim (q + 1)"
  define m where "m = (if at then h else u)"
  define pc where "pc = (m < lim \<and> m < length buf \<and> buf ! m = CHR '':'')"
  define e where "e = run_end authority_char buf lim (m + 1)"
  from authority_grammar_closed [OF u_def colon_def p_def q_def at_def h_def m_def pc_def e_def]
  obtain a where g: "authority_grammar buf lim i authority_result_init =
     Match (if pc then e else m) a
       \<lparr>username = (if at then \<lparr>sbegin = i, send = u\<rparr> else span_default),
        password = (if at \<and> colon then \<lparr>sbegin = u + 1, send = p\<rparr> else span_default),
        host = (if at then \<lparr>sbegin = q + 1, send = h\<rparr> else \<lparr>sbegin = i, send = u\<rparr>),
        port = (if pc then \<lparr>sbegin = m + 1, send = e\<rparr> else span_default)\<rparr>"
    by blast
  from assms(1) have R: "R =
       \<lparr>username = (if at then \<lparr>sbegin = i, send = u\<rparr> else span_default),
        password = (if at \<and> colon then \<lparr>sbegin = u + 1, send = p\<rparr> else span_default),
        host = (if at then \<lparr>sbegin = q + 1, send = h\<rparr> else \<lparr>sbegin = i, send = u\<rparr>),
        port = (if pc then \<lparr>sbegin = m + 1, send = e\<rparr> else span_default)\<rparr>"
    unfolding parse_authority_def parse_indirect_def lim_def [symmetric] i_def [symmetric] g
    by simp
  from assms(2) have ac: "at \<and> colon"
    unfolding R by (auto simp: span_empty_def span_default_def split: if_splits)
  then have qp: "q = p" by (simp add: q_def)
  from ac have "buf ! u = CHR '':''" and "buf ! p = CHR ''@''"
    using colon_def at_def qp by simp_all
  moreover have "\<exists>j a R'. authority_userinfo buf lim i authority_result_init = Match j a R'"
    unfolding authority_userinfo_closed [OF u_def colon_def p_def q_def at_def h_def refl]
    using ac by simp
  ultimately show ?thesis
    using ac qp unfolding R lim_def [symmetric] i_def [symmetric] by simp
qed

theorem password_only_after_userinfo_witness:
  "parse_authority colon_password (span_of colon_password) =
     (Inr \<lparr>username = \<lparr>sbegin = 0, send = 0\<rparr>, password = \<lparr>sbegin = 1, send = 2\<rparr>,
           host = \<lparr>sbegin = 3, send = 4\<rparr>, port = \<lparr>sbegin = 0, send = 0\<rparr>\<rparr>,
      \<lparr>sbegin = 4, send = 4\<rparr>)
   \<and> \<not> span_empty \<lparr>sbegin = 1, send = 2\<rparr>
   \<and> (\<exists>j a R'. authority_userinfo colon_password (send (span_of colon_password))
          (sbegin (span_of colon_password)) authority_result_init = Match j a R')
   \<and> colon_password ! 0 = CHR '':'' \<and> colon_password ! 2 = CHR ''@''"
  using password_only_after_userinfo [OF colon_password_run] colon_password_run
  by (simp add: span_empty_def span_of_def)

text \<open>
  C5, as the specification states it: no result has an empty username and a non-empty password.
  On \<open>:p@h\<close> the optional username matches the empty word, the password is \<open>p\<close> and the
  host is \<open>h\<close>.
\<close>

theorem password_without_username_counterexample:
  "map_option password_without_username
     (result_of (parse_authority colon_password (span_of colon_password))) = Some True"
  unfolding colon_password_run
  by (simp add: result_of_def password_without_username_def span_empty_def)

text \<open>
  C6. The specification says that a continuation line as the first line makes
  \<open>parse_headers\<close> throw a parse failure. In the source the second alternative of a header line matches such a
  line, and its action appends to \<open>R.headers.back()\<close> while the list is empty: the
  behaviour is undefined, and no parse failure is thrown.
\<close>

theorem parse_headers_continuation_first:
  "fst (parse_headers continuation_first (span_of continuation_first))
     = Inl (Faulted BackOfEmptyList)"
  unfolding continuation_first_run by simp

text \<open>
  C7. On \<open>A: 1\<close>, CR LF, \<open> B: 2\<close>, CR LF, CR LF, \<open>parse_headers\<close> succeeds with the single
  entry of key \<open>A\<close> and values \<open>1\<close> and \<open>B: 2\<close>, and \<open>terminated\<close> is true: the call has
  consumed the whole input, the trailing blank line included, and leaves an empty span.
\<close>

theorem parse_headers_folded_line:
  "\<exists>R rest. parse_headers folded_headers (span_of folded_headers) = (Inr R, rest)
     \<and> headers_text folded_headers R = [(''A'', [''1'', ''B: 2''])]
     \<and> terminated R = True
     \<and> span_text folded_headers (consumed (span_of folded_headers) rest) = folded_headers
     \<and> span_empty rest"
  unfolding folded_headers_run
  by (simp add: headers_text_def span_text_def folded_headers_def consumed_def span_of_def
      span_empty_def)

text \<open>
  C8, as the source has it. \<open>parse_authority\<close> on \<open>user:pass@host:80\<close> gives the username
  \<open>user\<close>, the password \<open>pass\<close>, the host \<open>host\<close> and the port \<open>80\<close>; on \<open>host:80\<close> it
  gives an empty username and password, the host \<open>host\<close> and the port \<open>80\<close>. On every
  input the userinfo branch applies exactly when the byte after the optional username word
  and the optional colon and password word is an at sign: then the username is that first
  word, the password the word after the colon, and the host the word after the at sign.
  Otherwise the host-only branch applies: the username and the password stay
  default-constructed and the host is the first word. In both cases the port is the word
  after a colon that follows the host. An input without an at sign never takes the userinfo
  branch, whatever colons it has.
\<close>

theorem parse_authority_branch_rule:
  "map_option (authority_text userinfo_authority)
     (result_of (parse_authority userinfo_authority (span_of userinfo_authority)))
     = Some [''user'', ''pass'', ''host'', ''80'']
   \<and> map_option (authority_text host_port_authority)
     (result_of (parse_authority host_port_authority (span_of host_port_authority)))
     = Some [[], [], ''host'', ''80'']
   \<and> (\<exists>R rest. parse_authority buf input = (Inr R, rest)
     \<and> (if userinfo_applies buf input
         then username R = \<lparr>sbegin = sbegin input, send = word_end buf input (sbegin input)\<rparr>
            \<and> password R =
                (if byte_is buf input (word_end buf input (sbegin input)) (CHR '':'')
                 then \<lparr>sbegin = word_end buf input (sbegin input) + 1,
                       send = userinfo_end buf input\<rparr>
                 else span_default)
            \<and> host R = \<lparr>sbegin = userinfo_end buf input + 1,
                         send = word_end buf input (userinfo_end buf input + 1)\<rparr>
         else username R = span_default \<and> password R = span_default
            \<and> host R = \<lparr>sbegin = sbegin input, send = word_end buf input (sbegin input)\<rparr>)
     \<and> port R =
         (if byte_is buf input (send (host R)) (CHR '':'')
          then \<lparr>sbegin = send (host R) + 1, send = word_end buf input (send (host R) + 1)\<rparr>
          else span_default)
     \<and> rest = \<lparr>sbegin = (if byte_is buf input (send (host R)) (CHR '':'')
                          then send (port R) else send (host R)),
                send = send input\<rparr>)
   \<and> (CHR ''@'' \<notin> set (span_text buf input) \<longrightarrow> \<not> userinfo_applies buf input)"
proof (intro conjI impI)
  from authority_examples_run
  show "map_option (authority_text userinfo_authority)
     (result_of (parse_authority userinfo_authority (span_of userinfo_authority)))
     = Some [''user'', ''pass'', ''host'', ''80'']" by (rule conjunct1)
  from authority_examples_run
  show "map_option (authority_text host_port_authority)
     (result_of (parse_authority host_port_authority (span_of host_port_authority)))
     = Some [[], [], ''host'', ''80'']" by (rule conjunct2)
  show "\<exists>R rest. parse_authority buf input = (Inr R, rest)
     \<and> (if userinfo_applies buf input
         then username R = \<lparr>sbegin = sbegin input, send = word_end buf input (sbegin input)\<rparr>
            \<and> password R =
                (if byte_is buf input (word_end buf input (sbegin input)) (CHR '':'')
                 then \<lparr>sbegin = word_end buf input (sbegin input) + 1,
                       send = userinfo_end buf input\<rparr>
                 else span_default)
            \<and> host R = \<lparr>sbegin = userinfo_end buf input + 1,
                         send = word_end buf input (userinfo_end buf input + 1)\<rparr>
         else username R = span_default \<and> password R = span_default
            \<and> host R = \<lparr>sbegin = sbegin input, send = word_end buf input (sbegin input)\<rparr>)
     \<and> port R =
         (if byte_is buf input (send (host R)) (CHR '':'')
          then \<lparr>sbegin = send (host R) + 1, send = word_end buf input (send (host R) + 1)\<rparr>
          else span_default)
     \<and> rest = \<lparr>sbegin = (if byte_is buf input (send (host R)) (CHR '':'')
                          then send (port R) else send (host R)),
                send = send input\<rparr>"
    by (rule parse_authority_by_rule)
next
  assume "CHR ''@'' \<notin> set (span_text buf input)"
  then show "\<not> userinfo_applies buf input" by (rule userinfo_needs_at_sign)
qed

theorem parse_authority_branch_rule_witness:
  "CHR ''@'' \<notin> set (span_text host_port_authority (span_of host_port_authority))
   \<and> \<not> userinfo_applies host_port_authority (span_of host_port_authority)
   \<and> (\<exists>R rest. parse_authority host_port_authority (span_of host_port_authority) = (Inr R, rest)
         \<and> username R = span_default \<and> password R = span_default
         \<and> host R = \<lparr>sbegin = 0, send = 4\<rparr>)"
proof -
  have n: "CHR ''@'' \<notin> set (span_text host_port_authority (span_of host_port_authority))"
    by (simp add: span_text_def span_of_def host_port_authority_def)
  note t = parse_authority_branch_rule [of host_port_authority "span_of host_port_authority"]
  from t n have u: "\<not> userinfo_applies host_port_authority (span_of host_port_authority)"
    by blast
  from t obtain R rest where
    "parse_authority host_port_authority (span_of host_port_authority) = (Inr R, rest)"
    and "if userinfo_applies host_port_authority (span_of host_port_authority)
         then username R = \<lparr>sbegin = sbegin (span_of host_port_authority),
                 send = word_end host_port_authority (span_of host_port_authority)
                          (sbegin (span_of host_port_authority))\<rparr>
            \<and> password R =
                (if byte_is host_port_authority (span_of host_port_authority)
                      (word_end host_port_authority (span_of host_port_authority)
                         (sbegin (span_of host_port_authority))) (CHR '':'')
                 then \<lparr>sbegin = word_end host_port_authority (span_of host_port_authority)
                                  (sbegin (span_of host_port_authority)) + 1,
                       send = userinfo_end host_port_authority (span_of host_port_authority)\<rparr>
                 else span_default)
            \<and> host R = \<lparr>sbegin = userinfo_end host_port_authority (span_of host_port_authority) + 1,
                         send = word_end host_port_authority (span_of host_port_authority)
                                  (userinfo_end host_port_authority (span_of host_port_authority) + 1)\<rparr>
         else username R = span_default \<and> password R = span_default
            \<and> host R = \<lparr>sbegin = sbegin (span_of host_port_authority),
                         send = word_end host_port_authority (span_of host_port_authority)
                                  (sbegin (span_of host_port_authority))\<rparr>"
    by blast
  with u have "parse_authority host_port_authority (span_of host_port_authority) = (Inr R, rest)
      \<and> username R = span_default \<and> password R = span_default
      \<and> host R = \<lparr>sbegin = 0, send = 4\<rparr>"
    using host_port_word_end by (simp add: span_of_def)
  with n u show ?thesis by blast
qed

text \<open>
  C8, as the specification states it, says that the presence of an at sign alone selects the
  userinfo branch, whatever colons stand before it. On \<open>a:b:c@h\<close> the at sign is there
  and the host-only branch applies: the host is \<open>a\<close>, the port is \<open>b\<close>, and the username
  and the password are empty.
\<close>

theorem at_sign_after_two_colons_counterexample:
  "CHR ''@'' \<in> set two_colons_authority
   \<and> map_option (authority_text two_colons_authority)
       (result_of (parse_authority two_colons_authority (span_of two_colons_authority)))
     = Some [[], [], ''a'', ''b'']"
  using two_colons_authority_run by (simp add: two_colons_authority_def)

text \<open>
  C9. \<open>parse_authority\<close> returns a result on every input. On an empty input it consumes
  nothing, and a match that consumes nothing leaves the four fields empty.
\<close>

theorem parse_authority_never_fails:
  "\<exists>R rest. parse_authority buf input = (Inr R, rest)
     \<and> (sbegin input = send input \<longrightarrow> rest = input)
     \<and> (sbegin rest = sbegin input \<longrightarrow>
          span_empty (username R) \<and> span_empty (password R)
          \<and> span_empty (host R) \<and> span_empty (port R))"
proof -
  define lim i where "lim = send input" and "i = sbegin input"
  define u where "u = run_end authority_char buf lim i"
  define colon where "colon = (u < lim \<and> u < length buf \<and> buf ! u = CHR '':'')"
  define p where "p = run_end authority_char buf lim (u + 1)"
  define q where "q = (if colon then p else u)"
  define at where "at = (q < lim \<and> q < length buf \<and> buf ! q = CHR ''@'')"
  define h where "h = run_end authority_char buf lim (q + 1)"
  define m where "m = (if at then h else u)"
  define pc where "pc = (m < lim \<and> m < length buf \<and> buf ! m = CHR '':'')"
  define e where "e = run_end authority_char buf lim (m + 1)"
  from authority_grammar_closed [OF u_def colon_def p_def q_def at_def h_def m_def pc_def e_def]
  obtain a where g: "authority_grammar buf lim i authority_result_init =
     Match (if pc then e else m) a
       \<lparr>username = (if at then \<lparr>sbegin = i, send = u\<rparr> else span_default),
        password = (if at \<and> colon then \<lparr>sbegin = u + 1, send = p\<rparr> else span_default),
        host = (if at then \<lparr>sbegin = q + 1, send = h\<rparr> else \<lparr>sbegin = i, send = u\<rparr>),
        port = (if pc then \<lparr>sbegin = m + 1, send = e\<rparr> else span_default)\<rparr>"
    by blast
  have iu: "i \<le> u" and up: "u + 1 \<le> p" and qh: "q + 1 \<le> h" and me: "m + 1 \<le> e"
    unfolding u_def p_def h_def e_def using run_end_bounds by blast+
  have uq: "u \<le> q" using up by (simp add: q_def)
  have um: "u \<le> m" using uq qh by (simp add: m_def)
  have ul: "i = lim \<Longrightarrow> u = i" using run_end_bounds [of i authority_char buf lim] by (simp add: u_def)
  have input: "input = \<lparr>sbegin = i, send = lim\<rparr>" by (simp add: i_def lim_def)
  show ?thesis
    unfolding parse_authority_def parse_indirect_def lim_def [symmetric] i_def [symmetric] g
    using iu uq um qh me ul
    by (auto simp: span_empty_def span_default_def input at_def pc_def m_def colon_def q_def)
qed

theorem parse_authority_never_fails_witness:
  "\<exists>R. parse_authority [] (span_of []) = (Inr R, span_of [])
     \<and> span_empty (username R) \<and> span_empty (password R)
     \<and> span_empty (host R) \<and> span_empty (port R)"
  using parse_authority_never_fails [of "[]" "span_of []"]
  by (auto simp: span_of_def)

text \<open>
  C10. When \<open>parse_headers\<close>, \<open>parse_request_line\<close>, \<open>parse_response_line\<close>, \<open>parse_uri\<close>
  or \<open>parse_path\<close> throws a parse failure, the caller's span is as it was before the call.
  For \<open>parse_path\<close> this says little: its grammar matches every input, so it never throws.
\<close>

theorem failed_parse_leaves_input:
  "(fst (parse_headers buf input) = Inl (ParseFailure w l)
      \<longrightarrow> snd (parse_headers buf input) = input)
   \<and> (fst (parse_request_line buf input) = Inl (ParseFailure w l)
      \<longrightarrow> snd (parse_request_line buf input) = input)
   \<and> (fst (parse_response_line buf input) = Inl (ParseFailure w l)
      \<longrightarrow> snd (parse_response_line buf input) = input)
   \<and> (fst (parse_uri buf input) = Inl (ParseFailure w l)
      \<longrightarrow> snd (parse_uri buf input) = input)
   \<and> (fst (parse_path buf input ds es) = Inl (ParseFailure w l)
      \<longrightarrow> snd (parse_path buf input ds es) = input)
   \<and> (\<exists>R rest. parse_path buf input ds es = (Inr R, rest))"
  unfolding parse_headers_def parse_request_line_def parse_response_line_def parse_uri_def
    parse_path_def parse_indirect_def parse_direct_def
  using parse_path_returns [of buf input ds es, unfolded parse_path_def parse_direct_def]
  by (auto split: outcome.splits prod.splits sum.splits)

theorem failed_parse_leaves_input_witness:
  "fst (parse_headers no_headers (span_of no_headers))
     = Inl (ParseFailure ''Incomplete headers.'' (Some 0))
   \<and> snd (parse_headers no_headers (span_of no_headers)) = span_of no_headers
   \<and> fst (parse_request_line short_request_line (span_of short_request_line))
     = Inl (ParseFailure ''Incomplete request line.'' (Some 0))
   \<and> snd (parse_request_line short_request_line (span_of short_request_line))
     = span_of short_request_line
   \<and> fst (parse_response_line short_response_line (span_of short_response_line))
     = Inl (ParseFailure ''Incomplete response line.'' (Some 0))
   \<and> snd (parse_response_line short_response_line (span_of short_response_line))
     = span_of short_response_line
   \<and> fst (parse_uri spaced_uri (span_of spaced_uri))
     = Inl (ParseFailure ''Incomplete URI.'' (Some 0))
   \<and> snd (parse_uri spaced_uri (span_of spaced_uri)) = span_of spaced_uri"
  using
    failed_parse_leaves_input [of no_headers "span_of no_headers" "''Incomplete headers.''" "Some 0"]
    failed_parse_leaves_input [of short_request_line "span_of short_request_line"
      "''Incomplete request line.''" "Some 0"]
    failed_parse_leaves_input [of short_response_line "span_of short_response_line"
      "''Incomplete response line.''" "Some 0"]
    failed_parse_leaves_input [of spaced_uri "span_of spaced_uri" "''Incomplete URI.''" "Some 0"]
    no_headers_run short_request_line_run short_response_line_run spaced_uri_run
  by simp

end
